theory Spec2Isabelle
  imports Complex_Main "HOL-Library.Word" "HOL-Library.Product_Lexorder"
begin

section \<open>Python primitives used by the sources\<close>

text \<open>
  Strings are lists of 8-bit characters; the models of the string built-ins below are the
  ASCII behaviour of Python's \<^verbatim>\<open>str\<close> methods. Exceptions are values of the type
  \<open>error\<close>; a function that can raise returns \<open>error + 'a\<close>, with \<open>Inl\<close> the exception.
\<close>

datatype error = ValueError string | IndexError string | FileNotFoundError string

definition is_space :: "char \<Rightarrow> bool" where
  \<comment> \<open>\<^verbatim>\<open>str.isspace\<close> on ASCII: tab, LF, VT, FF, CR, the separators 28 to 31, space.\<close>
  "is_space c = (of_char c \<in> {9, 10, 11, 12, 13, 28, 29, 30, 31, 32 :: nat})"

definition lstrip :: "string \<Rightarrow> string" where
  "lstrip s = dropWhile is_space s"

definition rstrip :: "string \<Rightarrow> string" where
  "rstrip s = rev (dropWhile is_space (rev s))"

definition strip :: "string \<Rightarrow> string" where
  \<comment> \<open>\<^verbatim>\<open>s.strip()\<close>\<close>
  "strip s = lstrip (rstrip s)"

definition remove_char :: "char \<Rightarrow> string \<Rightarrow> string" where
  \<comment> \<open>\<^verbatim>\<open>s.replace(c, "")\<close> for a one-character pattern\<close>
  "remove_char c s = filter (\<lambda>x. x \<noteq> c) s"

definition upper_char :: "char \<Rightarrow> char" where
  "upper_char c =
     (if 97 \<le> (of_char c :: nat) \<and> (of_char c :: nat) \<le> 122
      then char_of ((of_char c :: nat) - 32) else c)"

definition upper :: "string \<Rightarrow> string" where
  \<comment> \<open>\<^verbatim>\<open>s.upper()\<close>\<close>
  "upper s = map upper_char s"

fun list_index :: "'a list \<Rightarrow> 'a \<Rightarrow> nat option" where
  \<comment> \<open>\<^verbatim>\<open>xs.index(x)\<close>: the first position of \<open>x\<close>, \<open>None\<close> where Python raises ValueError\<close>
  "list_index [] x = None"
| "list_index (y # ys) x =
     (if y = x then Some 0 else map_option Suc (list_index ys x))"

definition is_digit :: "char \<Rightarrow> bool" where
  "is_digit c = (48 \<le> (of_char c :: nat) \<and> (of_char c :: nat) \<le> 57)"

definition digit_val :: "char \<Rightarrow> int" where
  "digit_val c = int (of_char c) - 48"

fun digits_ok :: "string \<Rightarrow> bool" where
  \<comment> \<open>a digit string of a numeric literal: digits, with single underscores between digits\<close>
  "digits_ok [] = False"
| "digits_ok [c] = is_digit c"
| "digits_ok (c # d # cs) =
     (is_digit c \<and> (if d = CHR ''_'' then digits_ok cs else digits_ok (d # cs)))"

definition digits_value :: "string \<Rightarrow> int" where
  "digits_value s = foldl (\<lambda>a c. 10 * a + digit_val c) 0 (remove_char CHR ''_'' s)"

definition int_of_str :: "string \<Rightarrow> int option" where
  \<comment> \<open>\<^verbatim>\<open>int(s)\<close>: surrounding whitespace, an optional sign, decimal digits;
      \<open>None\<close> where Python raises ValueError\<close>
  "int_of_str s =
     (case strip s of
        [] \<Rightarrow> None
      | c # cs \<Rightarrow>
          if c = CHR ''-'' then (if digits_ok cs then Some (- digits_value cs) else None)
          else if c = CHR ''+'' then (if digits_ok cs then Some (digits_value cs) else None)
          else if digits_ok (c # cs) then Some (digits_value (c # cs)) else None)"

definition digit_char :: "nat \<Rightarrow> char" where
  \<comment> \<open>the character of a digit below 10\<close>
  "digit_char n = ''0123456789'' ! n"

function str_pos :: "int \<Rightarrow> string" where
  \<comment> \<open>the decimal digits of a non-negative integer\<close>
  "str_pos i = (if i < 10 then [digit_char (nat i)]
                else str_pos (i div 10) @ [digit_char (nat (i mod 10))])"
  by pat_completeness auto
termination
  by (relation "measure nat") auto

declare str_pos.simps [simp del]

definition str_int :: "int \<Rightarrow> string" where
  \<comment> \<open>\<^verbatim>\<open>str(i)\<close> of an integer\<close>
  "str_int i = (if i < 0 then CHR ''-'' # str_pos (- i) else str_pos i)"

definition str_nat :: "nat \<Rightarrow> string" where
  "str_nat n = str_pos (int n)"

definition repr_str :: "string \<Rightarrow> string" where
  \<comment> \<open>\<^verbatim>\<open>repr(s)\<close> of a string of printable characters without quote or backslash\<close>
  "repr_str s = [CHR 0x27] @ s @ [CHR 0x27]"



definition py_trunc :: "rat \<Rightarrow> int" where
  \<comment> \<open>\<^verbatim>\<open>int(x)\<close> of a finite float: the fractional part is dropped, towards zero\<close>
  "py_trunc x = (if 0 \<le> x then \<lfloor>x\<rfloor> else \<lceil>x\<rceil>)"

section \<open>Note names (midi.py)\<close>

definition NOTE_NAMES :: "string list" where
  "NOTE_NAMES = [''C'', ''C#'', ''D'', ''D#'', ''E'', ''F'', ''F#'', ''G'', ''G#'', ''A'', ''A#'', ''B'']"

definition note_name_to_midi :: "string \<Rightarrow> error + int" where
  "note_name_to_midi name0 =
     (let name1 = strip name0;
          name = remove_char CHR ''b'' name1
      in if length name < 2 then Inl (ValueError (''Invalid note name: '' @ name))
         else
           let (note_part, octave_part) =
                 (if name ! 1 = CHR ''#'' then (take 2 name, drop 2 name)
                  else ([name ! 0], drop 1 name));
               flat = (CHR ''b'' \<in> set octave_part);
               octave_part' = (if flat then remove_char CHR ''b'' octave_part else octave_part)
           in case (if flat
                    then (case list_index NOTE_NAMES (upper note_part) of
                            None \<Rightarrow> Inl (ValueError (repr_str (upper note_part) @ '' is not in list''))
                          | Some i \<Rightarrow> Inr (NOTE_NAMES ! ((i + 11) mod 12)))
                    else Inr note_part) of
                Inl e \<Rightarrow> Inl e
              | Inr note_part' \<Rightarrow>
                  (case list_index NOTE_NAMES (upper note_part') of
                     None \<Rightarrow> Inl (ValueError (''Invalid note name: '' @ name))
                   | Some note_idx \<Rightarrow>
                       (case int_of_str octave_part' of
                          None \<Rightarrow> Inl (ValueError (''Invalid note name: '' @ name))
                        | Some octave \<Rightarrow>
                            let midi_num = (octave + 1) * 12 + int note_idx
                            in if \<not> (0 \<le> midi_num \<and> midi_num \<le> 127)
                               then Inl (ValueError (''Note '' @ name @ '' is out of MIDI range (0-127)''))
                               else Inr midi_num)))"

definition midi_to_note_name :: "int \<Rightarrow> string" where
  "midi_to_note_name midi_num =
     (let octave = midi_num div 12 - 1;
          note_idx = midi_num mod 12
      in NOTE_NAMES ! nat note_idx @ str_int octave)"

section \<open>The note-list encoder (midi.py)\<close>



record Note =
  pitch :: int
  start_beat :: rat
  duration_beats :: rat
  velocity :: int

definition start_ticks :: "Note \<Rightarrow> int \<Rightarrow> int" where
  "start_ticks n ticks_per_beat = py_trunc (start_beat n * of_int ticks_per_beat)"

definition duration_ticks :: "Note \<Rightarrow> int \<Rightarrow> int" where
  "duration_ticks n ticks_per_beat = py_trunc (duration_beats n * of_int ticks_per_beat)"

type_synonym event = "int \<times> string \<times> int \<times> int"

datatype message =
    Message string int int int  \<comment> \<open>type, note, velocity, time\<close>
  | MetaMessage_set_tempo int int  \<comment> \<open>the tempo in beats per minute given to \<^verbatim>\<open>mido.bpm2tempo\<close>, time\<close>
  | MetaMessage_end_of_track int  \<comment> \<open>time\<close>

record MidiFile =
  mf_ticks_per_beat :: int
  mf_tracks :: "message list list"

fun note_events :: "Note list \<Rightarrow> int \<Rightarrow> event list" where
  \<comment> \<open>the first loop: two events for each note, with absolute times\<close>
  "note_events [] tpb = []"
| "note_events (n # ns) tpb =
     (let start = start_ticks n tpb;
          end = start + duration_ticks n tpb
      in (start, ''note_on'', pitch n, velocity n) # (end, ''note_off'', pitch n, 0)
         # note_events ns tpb)"

definition event_key :: "event \<Rightarrow> int \<times> bool" where
  \<comment> \<open>\<^verbatim>\<open>lambda e: (e[0], e[1] == "note_on")\<close>\<close>
  "event_key e = (fst e, fst (snd e) = ''note_on'')"

definition sort_events :: "event list \<Rightarrow> event list" where
  \<comment> \<open>\<^verbatim>\<open>events.sort(key=...)\<close>: Python's sort is stable, as is \<open>sort_key\<close>\<close>
  "sort_events events = sort_key event_key events"

fun delta_messages :: "int \<Rightarrow> event list \<Rightarrow> message list" where
  \<comment> \<open>the second loop, from \<open>current_time\<close>\<close>
  "delta_messages current_time [] = []"
| "delta_messages current_time ((abs_time, msg_type, p, v) # es) =
     Message msg_type p v (abs_time - current_time) # delta_messages abs_time es"

definition create_midi_file :: "Note list \<Rightarrow> int \<Rightarrow> int \<Rightarrow> MidiFile" where
  "create_midi_file notes tempo_bpm tpb =
     (let events = sort_events (note_events notes tpb);
          track = [MetaMessage_set_tempo tempo_bpm 0]
                  @ delta_messages 0 events
                  @ [MetaMessage_end_of_track 0]
      in \<lparr>mf_ticks_per_beat = tpb, mf_tracks = [track]\<rparr>)"




subsection \<open>The encoded sequence, read back\<close>

fun abs_ticks :: "int \<Rightarrow> message list \<Rightarrow> (int \<times> message) list" where
  \<comment> \<open>a track read back: every message with its absolute tick, the sum of the delta
      times up to it\<close>
  "abs_ticks t [] = []"
| "abs_ticks t (Message ty p v d # ms) = (t + d, Message ty p v d) # abs_ticks (t + d) ms"
| "abs_ticks t (MetaMessage_set_tempo b d # ms) =
     (t + d, MetaMessage_set_tempo b d) # abs_ticks (t + d) ms"
| "abs_ticks t (MetaMessage_end_of_track d # ms) =
     (t + d, MetaMessage_end_of_track d) # abs_ticks (t + d) ms"

fun is_note :: "string \<Rightarrow> message \<Rightarrow> bool" where
  "is_note ty (Message ty' p v d) = (ty' = ty)"
| "is_note ty (MetaMessage_set_tempo b d) = False"
| "is_note ty (MetaMessage_end_of_track d) = False"

fun is_note_of :: "string \<Rightarrow> int \<Rightarrow> int \<Rightarrow> message \<Rightarrow> bool" where
  "is_note_of ty p v (Message ty' p' v' d) = (ty' = ty \<and> p' = p \<and> v' = v)"
| "is_note_of ty p v (MetaMessage_set_tempo b d) = False"
| "is_note_of ty p v (MetaMessage_end_of_track d) = False"

definition encoded :: "Note list \<Rightarrow> int \<Rightarrow> int \<Rightarrow> (int \<times> message) list" where
  \<comment> \<open>the encoded sequence of a note list: the messages of the track in their order,
      each with its absolute tick\<close>
  "encoded notes bpm tpb = abs_ticks 0 (hd (mf_tracks (create_midi_file notes bpm tpb)))"


section \<open>More Python primitives, for the project file (rpp.py)\<close>

fun startswith :: "string \<Rightarrow> string \<Rightarrow> bool" where
  \<comment> \<open>\<^verbatim>\<open>s.startswith(p)\<close>\<close>
  "startswith s [] = True"
| "startswith [] (p # ps) = False"
| "startswith (c # cs) (p # ps) = (c = p \<and> startswith cs ps)"

fun split_words :: "string \<Rightarrow> string \<Rightarrow> string list" where
  \<comment> \<open>\<^verbatim>\<open>s.split()\<close>, with the word read so far: the maximal runs of characters that
      are not whitespace\<close>
  "split_words w [] = (if w = [] then [] else [w])"
| "split_words w (c # cs) =
     (if is_space c then (if w = [] then split_words [] cs else w # split_words [] cs)
      else split_words (w @ [c]) cs)"

definition split :: "string \<Rightarrow> string list" where
  "split s = split_words [] s"

definition nl :: "string \<Rightarrow> string" where
  \<comment> \<open>a line of text with its final \<^verbatim>\<open>\n\<close>\<close>
  "nl s = s @ [CHR 0x0A]"

definition dq :: "string \<Rightarrow> string" where
  \<comment> \<open>a text between double quotes, \<^verbatim>\<open>"{s}"\<close> in a format string\<close>
  "dq s = [CHR 0x22] @ s @ [CHR 0x22]"

fun re_quoted :: "string \<Rightarrow> string option" where
  \<comment> \<open>group 1 of \<^verbatim>\<open>re.search(r'"([^"]*)"', s)\<close>: the text between the first double
      quote and the next one; \<open>None\<close> when there is no match\<close>
  "re_quoted [] = None"
| "re_quoted (c # cs) =
     (if c = CHR 0x22
      then (if dropWhile (\<lambda>x. x \<noteq> CHR 0x22) cs \<noteq> []
            then Some (takeWhile (\<lambda>x. x \<noteq> CHR 0x22) cs) else None)
      else re_quoted cs)"

fun re_braced :: "string \<Rightarrow> string option" where
  \<comment> \<open>group 1 of \<^verbatim>\<open>re.search(r"\{([^}]+)\}", s)\<close>: at the leftmost opening brace
      that is followed by at least one character other than a closing brace and then by a
      closing brace, the text between them\<close>
  "re_braced [] = None"
| "re_braced (c # cs) =
     (if c = CHR ''{'' \<and> takeWhile (\<lambda>x. x \<noteq> CHR ''}'') cs \<noteq> []
         \<and> dropWhile (\<lambda>x. x \<noteq> CHR ''}'') cs \<noteq> []
      then Some (takeWhile (\<lambda>x. x \<noteq> CHR ''}'') cs)
      else re_braced cs)"

fun readlines_from :: "string \<Rightarrow> string \<Rightarrow> string list" where
  \<comment> \<open>\<^verbatim>\<open>f.readlines()\<close> of a text file opened with the default universal newlines,
      with the line read so far: a line ends after \<^verbatim>\<open>\n\<close>, \<^verbatim>\<open>\r\n\<close> or
      \<^verbatim>\<open>\r\<close>, each read as \<^verbatim>\<open>\n\<close>\<close>
  "readlines_from cur [] = (if cur = [] then [] else [cur])"
| "readlines_from cur (c # cs) =
     (if c = CHR 0x0A then (cur @ [CHR 0x0A]) # readlines_from [] cs
      else if c = CHR 0x0D
      then (case cs of
              [] \<Rightarrow> [cur @ [CHR 0x0A]]
            | d # ds \<Rightarrow>
                if d = CHR 0x0A then (cur @ [CHR 0x0A]) # readlines_from [] ds
                else (cur @ [CHR 0x0A]) # readlines_from [] (d # ds))
      else readlines_from (cur @ [c]) cs)"

definition readlines :: "string \<Rightarrow> string list" where
  "readlines text = readlines_from [] text"

definition writelines :: "string list \<Rightarrow> string" where
  \<comment> \<open>the content of a file after \<^verbatim>\<open>f.writelines(lines)\<close> (no newline translation)\<close>
  "writelines lines = concat lines"

subsection \<open>Floats as text\<close>

text \<open>
  In the project file a float is only printed and parsed. A finite float is modelled by
  the decimal number that Python prints for it: a sign, a mantissa \<open>m\<close> and a number \<open>k\<close>
  of decimal places, for the value \<open>m / 10 ^ k\<close>; the parser gives \<open>k = 0\<close> or a
  mantissa that is not a multiple of 10. The parser is exact for literals of at most 15
  significant digits in the range of the normal doubles; the binary rounding of longer
  literals is not modelled.
\<close>

datatype pyfloat = Finite bool nat nat | Infinity bool | NaN

function strip_zeros :: "nat \<Rightarrow> nat \<Rightarrow> nat \<times> nat" where
  \<comment> \<open>drops the zeros at the end of the decimal places\<close>
  "strip_zeros m k = (if 0 < k \<and> m mod 10 = 0 then strip_zeros (m div 10) (k - 1) else (m, k))"
  by pat_completeness auto
termination
  by (relation "measure snd") auto

declare strip_zeros.simps [simp del]

function count_zeros :: "nat \<Rightarrow> nat" where
  \<comment> \<open>the number of zeros at the end of a positive number\<close>
  "count_zeros m = (if 0 < m \<and> m mod 10 = 0 then Suc (count_zeros (m div 10)) else 0)"
  by pat_completeness auto
termination
  by (relation "measure id") auto

declare count_zeros.simps [simp del]

definition str_float :: "pyfloat \<Rightarrow> string" where
  \<comment> \<open>\<^verbatim>\<open>str(x)\<close> and \<^verbatim>\<open>f"{x}"\<close> of a float: the shortest notation, with a
      fraction between 1e-4 and 1e16 and with an exponent outside\<close>
  "str_float x =
     (case x of
        NaN \<Rightarrow> ''nan''
      | Infinity neg \<Rightarrow> (if neg then ''-inf'' else ''inf'')
      | Finite neg m0 k0 \<Rightarrow>
          (if neg then ''-'' else '''') @
          (let (m, k) = strip_zeros m0 k0
           in if m = 0 then ''0.0''
              else
                let z = count_zeros m;
                    ds = str_nat (m div 10 ^ z);
                    n = int (length ds);
                    decpt = n + int z - int k
                in if - 4 < decpt \<and> decpt \<le> 16
                   then (if decpt \<le> 0 then ''0.'' @ replicate (nat (- decpt)) CHR ''0'' @ ds
                         else if decpt < n
                         then take (nat decpt) ds @ ''.'' @ drop (nat decpt) ds
                         else ds @ replicate (nat (decpt - n)) CHR ''0'' @ ''.0'')
                   else [hd ds] @ (if 1 < n then ''.'' @ tl ds else '''')
                        @ ''e'' @ (if decpt - 1 < 0 then ''-'' else ''+'')
                        @ (if \<bar>decpt - 1\<bar> < 10 then ''0'' else '''')
                        @ str_nat (nat \<bar>decpt - 1\<bar>)))"

definition lower_char :: "char \<Rightarrow> char" where
  "lower_char c =
     (if 65 \<le> (of_char c :: nat) \<and> (of_char c :: nat) \<le> 90
      then char_of ((of_char c :: nat) + 32) else c)"

definition lower :: "string \<Rightarrow> string" where
  "lower s = map lower_char s"

definition digit_count :: "string \<Rightarrow> nat" where
  "digit_count s = length (remove_char CHR ''_'' s)"

definition split_at :: "(char \<Rightarrow> bool) \<Rightarrow> string \<Rightarrow> string \<times> string option" where
  \<comment> \<open>the text before the first character that satisfies \<open>P\<close>, and the text after it\<close>
  "split_at P s =
     (case dropWhile (\<lambda>c. \<not> P c) s of
        [] \<Rightarrow> (s, None)
      | c # rest \<Rightarrow> (takeWhile (\<lambda>c. \<not> P c) s, Some rest))"

definition signed_digits :: "string \<Rightarrow> int option" where
  \<comment> \<open>an exponent: an optional sign and a digit string\<close>
  "signed_digits s =
     (case s of
        [] \<Rightarrow> None
      | c # cs \<Rightarrow>
          if c = CHR ''-'' then (if digits_ok cs then Some (- digits_value cs) else None)
          else if c = CHR ''+'' then (if digits_ok cs then Some (digits_value cs) else None)
          else if digits_ok (c # cs) then Some (digits_value (c # cs)) else None)"

definition float_number :: "bool \<Rightarrow> string \<Rightarrow> pyfloat option" where
  \<comment> \<open>an unsigned \<^verbatim>\<open>floatnumber\<close> of the grammar of \<^verbatim>\<open>float()\<close>:
      digits with an optional point and an optional exponent\<close>
  "float_number neg s =
     (let (mant, ex) = split_at (\<lambda>c. c = CHR ''e'' \<or> c = CHR ''E'') s;
          (ip, fp) = split_at (\<lambda>c. c = CHR ''.'') mant;
          fdigits = (case fp of None \<Rightarrow> [] | Some f \<Rightarrow> f);
          mant_ok = (case fp of
                       None \<Rightarrow> digits_ok ip
                     | Some f \<Rightarrow> (ip = [] \<and> digits_ok f)
                                 \<or> (digits_ok ip \<and> (f = [] \<or> digits_ok f)));
          e = (case ex of None \<Rightarrow> Some 0 | Some t \<Rightarrow> signed_digits t)
      in case e of
           None \<Rightarrow> None
         | Some e \<Rightarrow>
             if \<not> mant_ok then None
             else
               let m = nat (digits_value (ip @ fdigits));
                   places = int (digit_count fdigits) - e;
                   (m', k') = (if places \<le> 0 then (m * 10 ^ nat (- places), 0)
                               else strip_zeros m (nat places))
               in Some (Finite neg m' k'))"

definition float_of_str :: "string \<Rightarrow> pyfloat option" where
  \<comment> \<open>\<^verbatim>\<open>float(s)\<close>; \<open>None\<close> where Python raises ValueError\<close>
  "float_of_str s =
     (let t = strip s;
          neg = (t \<noteq> [] \<and> hd t = CHR ''-'');
          u = (if t \<noteq> [] \<and> (hd t = CHR ''-'' \<or> hd t = CHR ''+'') then tl t else t)
      in if lower u = ''inf'' \<or> lower u = ''infinity'' then Some (Infinity neg)
         else if lower u = ''nan'' then Some NaN
         else float_number neg u)"

subsection \<open>Identifiers\<close>

text \<open>
  \<^verbatim>\<open>uuid.uuid4()\<close> draws a fresh random identifier. The source of identifiers is explicit
  state: the sequence of the 128-bit values that the coming calls return.
\<close>

type_synonym uuid_supply = "nat \<Rightarrow> 128 word"

definition hex_char :: "nat \<Rightarrow> char" where
  \<comment> \<open>the character of a hexadecimal digit below 16\<close>
  "hex_char n = ''0123456789abcdef'' ! n"

definition hex_digits :: "128 word \<Rightarrow> string" where
  \<comment> \<open>\<^verbatim>\<open>'%032x' % int\<close>\<close>
  "hex_digits w = map (\<lambda>i. hex_char (unat (and (drop_bit (4 * (31 - i)) w) 15))) [0..<32]"

definition str_uuid :: "128 word \<Rightarrow> string" where
  \<comment> \<open>\<^verbatim>\<open>str(u)\<close> of a UUID: 8-4-4-4-12 hexadecimal digits\<close>
  "str_uuid w =
     (let h = hex_digits w
      in take 8 h @ ''-'' @ take 4 (drop 8 h) @ ''-'' @ take 4 (drop 12 h) @ ''-''
         @ take 4 (drop 16 h) @ ''-'' @ drop 20 h)"

definition uuid4 :: "uuid_supply \<Rightarrow> string \<times> uuid_supply" where
  \<comment> \<open>\<^verbatim>\<open>str(uuid.uuid4())\<close>: the text of the next identifier, and the supply after it\<close>
  "uuid4 g = (str_uuid (g 0), \<lambda>n. g (Suc n))"

subsection \<open>Paths\<close>

text \<open>A \<^verbatim>\<open>Path\<close> is modelled by its text, \<^verbatim>\<open>str(path)\<close>.\<close>

definition path_name :: "string \<Rightarrow> string" where
  \<comment> \<open>\<^verbatim>\<open>path.name\<close>: the last component\<close>
  "path_name p = (if p = ''.'' then [] else rev (takeWhile (\<lambda>c. c \<noteq> CHR ''/'') (rev p)))"

definition path_stem :: "string \<Rightarrow> string" where
  \<comment> \<open>\<^verbatim>\<open>path.stem\<close>: the name without its last suffix\<close>
  "path_stem p =
     (let name = path_name p;
          suffix = rev (takeWhile (\<lambda>c. c \<noteq> CHR ''.'') (rev name));
          i = int (length name) - int (length suffix) - 1
      in if CHR ''.'' \<in> set name \<and> 0 < i \<and> i < int (length name) - 1
         then take (nat i) name else name)"

section \<open>The project model and its text (rpp.py)\<close>

record MidiItem =
  path :: string
  position :: pyfloat
  length_item :: pyfloat

record Track =
  name :: string
  index :: int
  guid :: string
  midi_items :: "MidiItem list"

record ReaperProject =
  project_path :: "string option"
  tempo :: pyfloat
  time_signature :: "int \<times> int"
  sample_rate :: int
  render_file :: string
  tracks :: "Track list"
  raw_lines :: "string list"

definition new_project :: "string option \<Rightarrow> ReaperProject" where
  \<comment> \<open>the fields that \<^verbatim>\<open>__init__\<close> sets before it loads a file\<close>
  "new_project pth =
     \<lparr>project_path = pth, tempo = Finite False 120 0, time_signature = (4, 4),
      sample_rate = 44100, render_file = ''render'', tracks = [], raw_lines = []\<rparr>"

subsection \<open>Loading\<close>

definition parse_metadata_line :: "ReaperProject \<Rightarrow> string \<Rightarrow> error + ReaperProject" where
  \<comment> \<open>the body of the first loop of \<^verbatim>\<open>_load\<close>\<close>
  "parse_metadata_line p raw =
     (let line = strip raw
      in if startswith line ''TEMPO ''
         then (let parts = split line
               in if 2 \<le> length parts
                  then (case float_of_str (parts ! 1) of
                          None \<Rightarrow> Inl (ValueError (''could not convert string to float: ''
                                                   @ repr_str (parts ! 1)))
                        | Some t \<Rightarrow> Inr (p\<lparr>tempo := t\<rparr>))
                  else Inr p)
         else if startswith line ''SAMPLERATE ''
         then (let parts = split line
               in if 2 \<le> length parts
                  then (case int_of_str (parts ! 1) of
                          None \<Rightarrow> Inl (ValueError (''invalid literal for int() with base 10: ''
                                                   @ repr_str (parts ! 1)))
                        | Some r \<Rightarrow> Inr (p\<lparr>sample_rate := r\<rparr>))
                  else Inr p)
         else if startswith line ''RENDER_FILE ''
         then (case re_quoted line of
                 Some m \<Rightarrow> Inr (p\<lparr>render_file := m\<rparr>)
               | None \<Rightarrow> Inr p)
         else Inr p)"

fun parse_metadata :: "ReaperProject \<Rightarrow> string list \<Rightarrow> error + ReaperProject" where
  \<comment> \<open>the first loop of \<^verbatim>\<open>_load\<close>; an exception ends it\<close>
  "parse_metadata p [] = Inr p"
| "parse_metadata p (l # ls) =
     (case parse_metadata_line p l of
        Inl e \<Rightarrow> Inl e
      | Inr p' \<Rightarrow> parse_metadata p' ls)"

record track_scan =
  scan_tracks :: "Track list"
  in_track :: bool
  current_track :: "Track option"
  track_idx :: int
  scan_supply :: uuid_supply

definition parse_track_line :: "track_scan \<Rightarrow> string \<Rightarrow> track_scan" where
  \<comment> \<open>the body of the second loop of \<^verbatim>\<open>_load\<close>\<close>
  "parse_track_line st line =
     (let stripped = strip line
      in if startswith stripped ''<TRACK''
         then (let (g, supply') =
                     (case re_braced stripped of
                        Some m \<Rightarrow> (m, scan_supply st)
                      | None \<Rightarrow> uuid4 (scan_supply st))
               in st\<lparr>in_track := True,
                     current_track :=
                       Some \<lparr>name = ''Track '' @ str_int (track_idx st + 1),
                             index = track_idx st, guid = g, midi_items = []\<rparr>,
                     track_idx := track_idx st + 1,
                     scan_supply := supply'\<rparr>)
         else if in_track st \<and> startswith stripped ''NAME ''
         then (case re_quoted stripped of
                 Some m \<Rightarrow>
                   (case current_track st of
                      Some t \<Rightarrow> st\<lparr>current_track := Some (t\<lparr>name := m\<rparr>)\<rparr>
                    | None \<Rightarrow> st)
               | None \<Rightarrow> st)
         else if in_track st \<and> stripped = ''>''
         then st\<lparr>scan_tracks :=
                    (case current_track st of
                       Some t \<Rightarrow> scan_tracks st @ [t]
                     | None \<Rightarrow> scan_tracks st),
                  current_track := None,
                  in_track := False\<rparr>
         else st)"

definition parse_tracks :: "uuid_supply \<Rightarrow> string list \<Rightarrow> track_scan" where
  \<comment> \<open>the second loop of \<^verbatim>\<open>_load\<close>\<close>
  "parse_tracks g lines =
     foldl parse_track_line
       \<lparr>scan_tracks = [], in_track = False, current_track = None, track_idx = 0,
        scan_supply = g\<rparr> lines"

definition load_lines ::
  "string \<Rightarrow> string list \<Rightarrow> uuid_supply \<Rightarrow> error + ReaperProject \<times> uuid_supply" where
  \<comment> \<open>\<^verbatim>\<open>_load\<close> on a new project, from the lines read\<close>
  "load_lines pth lines g =
     (case parse_metadata ((new_project (Some pth))\<lparr>raw_lines := lines\<rparr>) lines of
        Inl e \<Rightarrow> Inl e
      | Inr p \<Rightarrow>
          (let st = parse_tracks g lines
           in Inr (p\<lparr>tracks := scan_tracks st\<rparr>, scan_supply st)))"

definition load :: "string \<Rightarrow> string \<Rightarrow> uuid_supply \<Rightarrow> error + ReaperProject \<times> uuid_supply" where
  \<comment> \<open>\<^verbatim>\<open>ReaperProject.load(path)\<close> for an existing file with the given content\<close>
  "load pth content g = load_lines pth (readlines content) g"

subsection \<open>Saving\<close>

definition generate_reasynth_fx :: "uuid_supply \<Rightarrow> string list \<times> uuid_supply" where
  "generate_reasynth_fx g =
     (let (fxid, g') = uuid4 g
      in ([nl ''    <FXCHAIN'',
           nl ''      SHOW 0'',
           nl ''      LASTSEL 0'',
           nl ''      DOCKED 0'',
           nl ''      BYPASS 0 0 0'',
           nl (''      <VST '' @ dq ''VSTi: ReaSynth (Cockos)'' @ '' reasynth.vst.dylib 0 ''
               @ dq '''' @ '' 1919251321<5653546872736E7265617379>''),
           nl ''        eXNlcu5e7f4CAAAAAQAAAAAAAAACAAAAAAAAAAIAAAABAAAAAAAAAAIAAAAAAAAAPAAAAAAAAAAAABA'',
           nl ''        AAAAAAAAAAAAQAAAAAAAAAAAAAAAAAAAAAAAAAAAAAAAAAAAAAAAAAAAAAAAAAAAAAAAAAAAAAAAAAAA'',
           nl ''        AAAAAAAAAAAAAAAAAAAAAAAAAAAAAAAAAAAAAAAAAAAAAAAAAAAA'',
           nl ''        AAAQAAAA'',
           nl ''      >'',
           nl ''      FLOATPOS 0 0 0 0'',
           nl (''      FXID {'' @ fxid @ ''}''),
           nl ''      WAK 0 0'',
           nl ''    >''], g'))"

definition generate_midi_item :: "MidiItem \<Rightarrow> uuid_supply \<Rightarrow> string list \<times> uuid_supply" where
  "generate_midi_item item g =
     (let (item_guid, g1) = uuid4 g;
          midi_path = path item;
          (guid2, g2) = uuid4 g1
      in ([nl ''    <ITEM'',
           nl (''      POSITION '' @ str_float (position item)),
           nl ''      SNAPOFFS 0'',
           nl (''      LENGTH '' @ str_float (length_item item)),
           nl ''      LOOP 1'',
           nl ''      ALLTAKES 0'',
           nl ''      FADEIN 1 0.01 0 1 0 0 0'',
           nl ''      FADEOUT 1 0.01 0 1 0 0 0'',
           nl ''      MUTE 0 0'',
           nl ''      SEL 0'',
           nl (''      IGUID {'' @ item_guid @ ''}''),
           nl ''      IID 1'',
           nl (''      NAME '' @ dq (path_stem (path item))),
           nl ''      VOLPAN 1 0 1 -1'',
           nl ''      PLAYRATE 1 1 0 -1 0 0.0025'',
           nl ''      CHANMODE 0'',
           nl (''      GUID {'' @ guid2 @ ''}''),
           nl ''      <SOURCE MIDI'',
           nl ''        HASDATA 1 960 QN'',
           nl (''        FILE '' @ dq midi_path),
           nl ''      >'',
           nl ''    >''], g2))"

fun generate_midi_items :: "MidiItem list \<Rightarrow> uuid_supply \<Rightarrow> string list \<times> uuid_supply" where
  \<comment> \<open>the loop over the items of a track\<close>
  "generate_midi_items [] g = ([], g)"
| "generate_midi_items (item # items) g =
     (let (ls, g1) = generate_midi_item item g;
          (rest, g2) = generate_midi_items items g1
      in (ls @ rest, g2))"

definition generate_track :: "Track \<Rightarrow> bool \<Rightarrow> uuid_supply \<Rightarrow> string list \<times> uuid_supply" where
  "generate_track track add_synth g =
     (let braced = ''{'' @ guid track @ ''}'';
          lines = [nl (''  <TRACK '' @ braced),
                   nl (''    NAME '' @ dq (name track)),
                   nl ''    PEAKCOL 16576'',
                   nl ''    BEAT -1'',
                   nl ''    AUTOMODE 0'',
                   nl ''    VOLPAN 1 0 -1 -1 1'',
                   nl ''    REC 0 0 1 0 0 0 0 0'',
                   nl ''    VU 2'',
                   nl ''    NCHAN 2'',
                   nl ''    FX 1'',
                   nl (''    TRACKID '' @ braced),
                   nl ''    PERF 0'',
                   nl ''    MIDIOUT -1'',
                   nl ''    MAINSEND 1 0''];
          (fx, g1) = (if add_synth \<and> midi_items track \<noteq> [] then generate_reasynth_fx g
                      else ([], g));
          (items, g2) = generate_midi_items (midi_items track) g1
      in (lines @ fx @ items @ [nl ''  >''], g2))"

fun generate_tracks :: "Track list \<Rightarrow> uuid_supply \<Rightarrow> string list \<times> uuid_supply" where
  \<comment> \<open>the loop over the tracks of the project\<close>
  "generate_tracks [] g = ([], g)"
| "generate_tracks (t # ts) g =
     (let (ls, g1) = generate_track t True g;
          (rest, g2) = generate_tracks ts g1
      in (ls @ rest, g2))"

definition generate_new_project :: "ReaperProject \<Rightarrow> uuid_supply \<Rightarrow> string list \<times> uuid_supply" where
  "generate_new_project p g =
     (let lines = [nl (''<REAPER_PROJECT 0.1 '' @ dq ''7.0'' @ '' 1704067200''),
                   nl ''  RIPPLE 0'',
                   nl ''  GROUPOVERRIDE 0 0 0'',
                   nl ''  AUTOXFADE 1'',
                   nl (''  SAMPLERATE '' @ str_int (sample_rate p) @ '' 0 0''),
                   nl (''  TEMPO '' @ str_float (tempo p) @ '' 4 4''),
                   nl ''  PLAYRATE 1 0 0.25 4'',
                   nl ''  MASTERTRACKHEIGHT 0 0'',
                   nl ''  MASTERTRACKVIEW 0 0.6667 0.5 0.5 -1 -1 -1 0 0 0 -1 -1 0'',
                   nl ''  MASTERHWOUT 0 0 1 0 0 0 0 -1'',
                   nl ''  MASTER_NCH 2 2'',
                   nl ''  MASTER_VOLUME 1 0 -1 -1 1'',
                   nl ''  MASTER_FX 1'',
                   nl ''  MASTER_SEL 0'',
                   nl (''  RENDER_FILE '' @ dq (render_file p)),
                   nl (''  RENDER_PATTERN '' @ dq ''''),
                   nl ''  RENDER_FMT 0 2 0'',
                   nl ''  RENDER_1X 0'',
                   nl ''  RENDER_RANGE 1 0 0 18 1000'',
                   nl ''  RENDER_RESAMPLE 3 0 1'',
                   nl ''  RENDER_ADDTOPROJ 0'',
                   nl ''  RENDER_STEMS 0'',
                   nl ''  RENDER_DITHER 0''];
          (ts, g') = generate_tracks (tracks p) g
      in (lines @ ts @ [nl ''>''], g'))"

definition save :: "ReaperProject \<Rightarrow> uuid_supply \<Rightarrow> string \<times> uuid_supply" where
  \<comment> \<open>the content of the file that \<^verbatim>\<open>save\<close> writes, and the supply after it\<close>
  "save p g = (let (lines, g') = generate_new_project p g in (writelines lines, g'))"

subsection \<open>Operations\<close>

definition set_tempo :: "ReaperProject \<Rightarrow> pyfloat \<Rightarrow> ReaperProject" where
  "set_tempo p bpm = p\<lparr>tempo := bpm\<rparr>"

definition set_render_file :: "ReaperProject \<Rightarrow> string \<Rightarrow> ReaperProject" where
  "set_render_file p filename = p\<lparr>render_file := filename\<rparr>"

definition add_track :: "ReaperProject \<Rightarrow> string \<Rightarrow> uuid_supply \<Rightarrow> (Track \<times> ReaperProject) \<times> uuid_supply" where
  "add_track p nm g =
     (let (u, g') = uuid4 g;
          track = \<lparr>name = nm, index = int (length (tracks p)), guid = u, midi_items = []\<rparr>
      in ((track, p\<lparr>tracks := tracks p @ [track]\<rparr>), g'))"

definition add_midi_item ::
  "(string \<Rightarrow> error + pyfloat) \<Rightarrow> ReaperProject \<Rightarrow> int \<Rightarrow> string \<Rightarrow> pyfloat \<Rightarrow> pyfloat option
     \<Rightarrow> error + ReaperProject" where
  \<comment> \<open>\<open>midi_length\<close> is the reader of the duration of a MIDI file,
      \<^verbatim>\<open>mido.MidiFile(str(midi_path)).length\<close>, with the exception it may raise\<close>
  "add_midi_item midi_length p track_index midi_path pos len =
     (if int (length (tracks p)) \<le> track_index
      then Inl (IndexError (''Track index '' @ str_int track_index @ '' out of range''))
      else
        case (case len of None \<Rightarrow> midi_length midi_path | Some l \<Rightarrow> Inr l) of
          Inl e \<Rightarrow> Inl e
        | Inr l \<Rightarrow>
            (let item = \<lparr>path = midi_path, position = pos, length_item = l\<rparr>;
                 n = int (length (tracks p))
             in if track_index < - n then Inl (IndexError ''list index out of range'')
                else
                  let i = nat (if track_index < 0 then n + track_index else track_index);
                      t = tracks p ! i
                  in Inr (p\<lparr>tracks := (tracks p)[i := t\<lparr>midi_items := midi_items t @ [item]\<rparr>]\<rparr>)))"

section \<open>Notions used in the properties of the project text\<close>

definition no_linebreak :: "string \<Rightarrow> bool" where
  \<comment> \<open>a text without the characters that end a line when a file is read\<close>
  "no_linebreak s = (CHR 0x0A \<notin> set s \<and> CHR 0x0D \<notin> set s)"

definition proper_line :: "string \<Rightarrow> bool" where
  \<comment> \<open>a line that ends with its newline and has no other line break\<close>
  "proper_line l = (l \<noteq> [] \<and> last l = CHR 0x0A \<and> no_linebreak (butlast l))"

definition meta_quiet :: "string \<Rightarrow> bool" where
  \<comment> \<open>a line that is none of the three metadata directives\<close>
  "meta_quiet l =
     (\<not> startswith (strip l) ''TEMPO '' \<and> \<not> startswith (strip l) ''SAMPLERATE ''
      \<and> \<not> startswith (strip l) ''RENDER_FILE '')"

definition track_quiet :: "string \<Rightarrow> bool" where
  \<comment> \<open>a line that does not open a track\<close>
  "track_quiet l = (\<not> startswith (strip l) ''<TRACK'')"

definition inner_quiet :: "string \<Rightarrow> bool" where
  \<comment> \<open>a line that neither opens, names nor closes a track\<close>
  "inner_quiet l =
     (\<not> startswith (strip l) ''<TRACK'' \<and> \<not> startswith (strip l) ''NAME ''
      \<and> strip l \<noteq> ''>'')"

definition fresh_id_line :: "string \<Rightarrow> bool" where
  \<comment> \<open>the generated lines that carry an identifier drawn at the time of saving\<close>
  "fresh_id_line l =
     (startswith l ''      FXID {'' \<or> startswith l ''      IGUID {''
      \<or> startswith l ''      GUID {'')"

definition mask_ids :: "string list \<Rightarrow> string list" where
  \<comment> \<open>the lines with every such line blanked\<close>
  "mask_ids ls = map (\<lambda>l. if fresh_id_line l then [] else l) ls"

section \<open>Example inputs\<close>

definition note_a :: Note where
  "note_a = \<lparr>pitch = 60, start_beat = 0, duration_beats = 1, velocity = 100\<rparr>"

definition note_b :: Note where
  "note_b = \<lparr>pitch = 60, start_beat = 1, duration_beats = 1, velocity = 90\<rparr>"


definition note_z :: Note where
  "note_z = \<lparr>pitch = 60, start_beat = 0, duration_beats = 0, velocity = 100\<rparr>"

definition drums_item :: MidiItem where
  "drums_item = \<lparr>path = ''drums.mid'', position = Finite False 0 0, length_item = Finite False 2 0\<rparr>"

definition drums_project :: ReaperProject where
  "drums_project =
     (new_project None)
       \<lparr>tempo := Finite False 128 0,
        tracks := [\<lparr>name = ''Drums'', index = 0,
                    guid = ''6f9619ff-8b86-4011-b42d-00c04fc964ff'',
                    midi_items = [drums_item]\<rparr>]\<rparr>"

definition two_tracks :: ReaperProject where
  "two_tracks =
     (new_project None)
       \<lparr>tracks := [\<lparr>name = ''Bass'', index = 0, guid = ''a'', midi_items = []\<rparr>,
                   \<lparr>name = ''Drums'', index = 1, guid = ''b'', midi_items = []\<rparr>]\<rparr>"

definition no_midi_file :: "string \<Rightarrow> error + pyfloat" where
  \<comment> \<open>a reader of durations for a directory without MIDI files\<close>
  "no_midi_file pth = Inl (FileNotFoundError pth)"

definition counting_supply :: uuid_supply where
  \<comment> \<open>a supply of identifiers that are all different\<close>
  "counting_supply = (\<lambda>n. of_nat n)"

section \<open>Properties of the note names\<close>

text \<open>
  Claim C5. The claim says that a flat lowers the pitch class: \<^verbatim>\<open>"Bb3"\<close> is 58 and
  \<^verbatim>\<open>"Db4"\<close> is 61. The source deletes every \<^verbatim>\<open>b\<close> from the name before it
  looks at it, so that its branch for flats is never taken: it returns 59 for
  \<^verbatim>\<open>"Bb3"\<close> and 62 for \<^verbatim>\<open>"Db4"\<close>, and rejects the note \<^verbatim>\<open>"b3"\<close>. The
  lower-case \<^verbatim>\<open>"c4"\<close> is 60, as claimed.
\<close>

theorem flat_names_not_lowered:
  "note_name_to_midi ''Bb3'' = Inr 59 \<and> note_name_to_midi ''Db4'' = Inr 62
   \<and> note_name_to_midi ''c4'' = Inr 60
   \<and> note_name_to_midi ''b3'' = Inl (ValueError ''Invalid note name: 3'')"
  by code_simp

lemma all_pitches_roundtrip:
  "list_all (\<lambda>p. CHR ''b'' \<notin> set (midi_to_note_name p)
                 \<and> note_name_to_midi (midi_to_note_name p) = Inr p) [0..127]"
  by code_simp

text \<open>
  Claim C6. For every pitch from 0 to 127, the name given by \<open>midi_to_note_name\<close> has
  no flat sign in it, and \<open>note_name_to_midi\<close> maps that name back to the pitch.
\<close>

theorem pitch_name_roundtrip:
  assumes "0 \<le> p" and "p \<le> 127"
  shows "CHR ''b'' \<notin> set (midi_to_note_name p)
     \<and> note_name_to_midi (midi_to_note_name p) = Inr p"
  using all_pitches_roundtrip assms by (simp add: list_all_iff)

theorem pitch_name_roundtrip_witness:
  "(0::int) \<le> 61 \<and> (61::int) \<le> 127 \<and> CHR ''b'' \<notin> set (midi_to_note_name 61)
   \<and> note_name_to_midi (midi_to_note_name 61) = Inr 61"
  using pitch_name_roundtrip [of 61] by simp

section \<open>Properties of the note-list encoder\<close>

lemma length_abs_ticks: "length (abs_ticks t ms) = length ms"
  by (induction t ms rule: abs_ticks.induct) simp_all

lemma length_delta_messages: "length (delta_messages t es) = length es"
  by (induction t es rule: delta_messages.induct) simp_all

lemma length_note_events: "length (note_events ns tpb) = 2 * length ns"
  by (induction ns) (simp_all add: Let_def)

lemma abs_ticks_delta_nth:
  "k < length es \<Longrightarrow> es ! k = (a, ty, p, v) \<Longrightarrow>
   \<exists>d. abs_ticks t (delta_messages t es @ rest) ! k = (a, Message ty p v d)"
proof (induction es arbitrary: t k)
  case Nil
  then show ?case by simp
next
  case (Cons e es)
  obtain a' ty' p' v' where e: "e = (a', ty', p', v')" by (cases e) auto
  show ?case
  proof (cases k)
    case 0
    with Cons.prems e show ?thesis by simp
  next
    case (Suc k')
    with Cons.prems have "k' < length es" "es ! k' = (a, ty, p, v)" by simp_all
    from Cons.IH [OF this, of a'] Suc e show ?thesis by simp
  qed
qed

lemma track_nth:
  assumes "k < length es" "es ! k = (a, ty, p, v)"
  shows "\<exists>d. abs_ticks 0 ([MetaMessage_set_tempo b 0] @ delta_messages 0 es @ r) ! Suc k
           = (a, Message ty p v d)"
  using abs_ticks_delta_nth [OF assms, of 0 r] by simp

lemma sorted_sort_events: "sorted (map event_key (sort_events es))"
  by (simp add: sort_events_def)

lemma set_sort_events: "set (sort_events es) = set es"
  by (simp add: sort_events_def)

lemma length_sort_events: "length (sort_events es) = length es"
  by (simp add: sort_events_def)

lemma note_events_mem:
  "n \<in> set ns \<Longrightarrow>
   (start_ticks n tpb, ''note_on'', pitch n, velocity n) \<in> set (note_events ns tpb) \<and>
   (start_ticks n tpb + duration_ticks n tpb, ''note_off'', pitch n, 0) \<in> set (note_events ns tpb)"
  by (induction ns) (auto simp: Let_def)

lemma length_encoded: "length (encoded notes bpm tpb) = 2 * length notes + 2"
  by (simp add: encoded_def create_midi_file_def Let_def length_abs_ticks
      length_delta_messages length_sort_events length_note_events)

lemma encoded_nth:
  assumes "k < length (sort_events (note_events notes tpb))"
    and "sort_events (note_events notes tpb) ! k = (a, ty, p, v)"
  shows "\<exists>d. encoded notes bpm tpb ! Suc k = (a, Message ty p v d)"
  using track_nth [OF assms] by (simp add: encoded_def create_midi_file_def Let_def)

lemma encoded_0: "encoded notes bpm tpb ! 0 = (0, MetaMessage_set_tempo bpm 0)"
  by (simp add: encoded_def create_midi_file_def Let_def)

lemma abs_ticks_append_last:
  "\<exists>t'. abs_ticks t (ms @ [MetaMessage_end_of_track d]) ! length ms = (t', MetaMessage_end_of_track d)"
  by (induction t ms rule: abs_ticks.induct) simp_all

lemma encoded_last:
  "\<exists>t'. encoded notes bpm tpb ! Suc (2 * length notes) = (t', MetaMessage_end_of_track 0)"
proof -
  let ?ms = "[MetaMessage_set_tempo bpm 0] @ delta_messages 0 (sort_events (note_events notes tpb))"
  have "length ?ms = Suc (2 * length notes)"
    by (simp add: length_delta_messages length_sort_events length_note_events)
  with abs_ticks_append_last [of 0 ?ms 0] show ?thesis
    by (simp add: encoded_def create_midi_file_def Let_def)
qed

lemma encoded_note_index:
  assumes "i < length (encoded notes bpm tpb)" and "is_note ty (snd (encoded notes bpm tpb ! i))"
  shows "\<exists>k p v. i = Suc k \<and> k < length (sort_events (note_events notes tpb)) \<and>
           sort_events (note_events notes tpb) ! k = (fst (encoded notes bpm tpb ! i), ty, p, v)"
proof -
  let ?es = "sort_events (note_events notes tpb)"
  have len: "length ?es = 2 * length notes"
    by (simp add: length_sort_events length_note_events)
  have "i \<noteq> 0"
  proof
    assume "i = 0"
    with assms(2) show False by (simp add: encoded_0)
  qed
  then obtain k where k: "i = Suc k" by (cases i) auto
  have "k \<noteq> 2 * length notes"
  proof
    assume "k = 2 * length notes"
    moreover obtain t' where "encoded notes bpm tpb ! Suc (2 * length notes) = (t', MetaMessage_end_of_track 0)"
      using encoded_last by blast
    ultimately show False using k assms(2) by simp
  qed
  with assms(1) k have klt: "k < length ?es" by (simp add: length_encoded len)
  obtain a ty' p v where ek: "?es ! k = (a, ty', p, v)" by (cases "?es ! k") auto
  from encoded_nth [OF klt ek, of bpm] obtain d where
    "encoded notes bpm tpb ! Suc k = (a, Message ty' p v d)" by blast
  with assms(2) k ek klt show ?thesis by auto
qed

lemma off_before_on_index:
  assumes "i < length es" "j < length es" "sorted (map event_key es)"
    and "es ! i = (t, ''note_off'', p, v)" "es ! j = (t, ''note_on'', p', v')"
  shows "i < j"
proof (rule ccontr)
  assume "\<not> i < j"
  then have "j \<le> i" by simp
  with assms(1,3) have "map event_key es ! j \<le> map event_key es ! i"
    using sorted_nth_mono [of "map event_key es" j i] by simp
  with assms \<open>j \<le> i\<close> show False by (simp add: event_key_def)
qed


lemma event_index:
  assumes "e \<in> set (note_events notes tpb)"
  shows "\<exists>k < length (sort_events (note_events notes tpb)). sort_events (note_events notes tpb) ! k = e"
proof -
  from assms have "e \<in> set (sort_events (note_events notes tpb))"
    by (simp add: set_sort_events)
  then show ?thesis by (auto simp: in_set_conv_nth)
qed

lemma encoded_event:
  assumes "(a, ty, p, v) \<in> set (note_events notes tpb)"
  shows "\<exists>k d. Suc k < length (encoded notes bpm tpb) \<and>
           k < length (sort_events (note_events notes tpb)) \<and>
           sort_events (note_events notes tpb) ! k = (a, ty, p, v) \<and>
           encoded notes bpm tpb ! Suc k = (a, Message ty p v d)"
proof -
  from event_index [OF assms] obtain k where
    k: "k < length (sort_events (note_events notes tpb))"
      "sort_events (note_events notes tpb) ! k = (a, ty, p, v)" by blast
  from encoded_nth [OF k, of bpm] obtain d where
    "encoded notes bpm tpb ! Suc k = (a, Message ty p v d)" by blast
  moreover from k(1) have "Suc k < length (encoded notes bpm tpb)"
    by (simp add: length_encoded length_sort_events length_note_events)
  ultimately show ?thesis using k by blast
qed

text \<open>
  Claim C3. In the encoded sequence, whenever a note-off and a note-on message have the
  same absolute tick, the note-off stands strictly before the note-on. In particular, for
  two notes of the same pitch of which one ends at the tick where the other starts, the
  encoded sequence holds the off message of the first before the on message of the second.
\<close>

theorem note_off_before_note_on:
  "(\<forall>i j. i < length (encoded notes bpm tpb) \<longrightarrow> j < length (encoded notes bpm tpb) \<longrightarrow>
      fst (encoded notes bpm tpb ! i) = fst (encoded notes bpm tpb ! j) \<longrightarrow>
      is_note ''note_off'' (snd (encoded notes bpm tpb ! i)) \<longrightarrow>
      is_note ''note_on'' (snd (encoded notes bpm tpb ! j)) \<longrightarrow> i < j)
   \<and> (\<forall>a \<in> set notes. \<forall>b \<in> set notes.
        pitch a = pitch b \<longrightarrow>
        start_ticks a tpb + duration_ticks a tpb = start_ticks b tpb \<longrightarrow>
        (\<exists>i j. i < j \<and> j < length (encoded notes bpm tpb)
           \<and> fst (encoded notes bpm tpb ! i) = start_ticks b tpb
           \<and> is_note_of ''note_off'' (pitch a) 0 (snd (encoded notes bpm tpb ! i))
           \<and> fst (encoded notes bpm tpb ! j) = start_ticks b tpb
           \<and> is_note_of ''note_on'' (pitch b) (velocity b) (snd (encoded notes bpm tpb ! j))))"
proof (intro conjI allI ballI impI)
  let ?es = "sort_events (note_events notes tpb)"
  let ?enc = "encoded notes bpm tpb"
  fix i j
  assume i: "i < length ?enc" and j: "j < length ?enc"
    and same: "fst (?enc ! i) = fst (?enc ! j)"
    and off: "is_note ''note_off'' (snd (?enc ! i))"
    and on: "is_note ''note_on'' (snd (?enc ! j))"
  from encoded_note_index [OF i off] obtain k p v where
    k: "i = Suc k" "k < length ?es" "?es ! k = (fst (?enc ! i), ''note_off'', p, v)" by blast
  from encoded_note_index [OF j on] obtain k' p' v' where
    k': "j = Suc k'" "k' < length ?es" "?es ! k' = (fst (?enc ! j), ''note_on'', p', v')" by blast
  from k(3) same have "?es ! k = (fst (?enc ! j), ''note_off'', p, v)" by simp
  from off_before_on_index [OF k(2) k'(2) sorted_sort_events this k'(3)]
  show "i < j" using k(1) k'(1) by simp
next
  let ?es = "sort_events (note_events notes tpb)"
  let ?enc = "encoded notes bpm tpb"
  fix a b
  assume a: "a \<in> set notes" and b: "b \<in> set notes" and "pitch a = pitch b"
    and meet: "start_ticks a tpb + duration_ticks a tpb = start_ticks b tpb"
  from note_events_mem [OF a, of tpb] meet
  have "(start_ticks b tpb, ''note_off'', pitch a, 0) \<in> set (note_events notes tpb)" by simp
  from encoded_event [OF this, of bpm] obtain k d where
    k: "Suc k < length ?enc" "k < length ?es" "?es ! k = (start_ticks b tpb, ''note_off'', pitch a, 0)"
      "?enc ! Suc k = (start_ticks b tpb, Message ''note_off'' (pitch a) 0 d)" by blast
  from note_events_mem [OF b, of tpb]
  have "(start_ticks b tpb, ''note_on'', pitch b, velocity b) \<in> set (note_events notes tpb)" by simp
  from encoded_event [OF this, of bpm] obtain k' d' where
    k': "Suc k' < length ?enc" "k' < length ?es"
      "?es ! k' = (start_ticks b tpb, ''note_on'', pitch b, velocity b)"
      "?enc ! Suc k' = (start_ticks b tpb, Message ''note_on'' (pitch b) (velocity b) d')" by blast
  from off_before_on_index [OF k(2) k'(2) sorted_sort_events k(3) k'(3)]
  have "Suc k < Suc k'" by simp
  with k k' show "\<exists>i j. i < j \<and> j < length ?enc
           \<and> fst (?enc ! i) = start_ticks b tpb
           \<and> is_note_of ''note_off'' (pitch a) 0 (snd (?enc ! i))
           \<and> fst (?enc ! j) = start_ticks b tpb
           \<and> is_note_of ''note_on'' (pitch b) (velocity b) (snd (?enc ! j))"
    by (intro exI [of _ "Suc k"] exI [of _ "Suc k'"]) simp
qed

lemma encoded_example:
  "encoded [note_a, note_b] 120 480 =
     [(0, MetaMessage_set_tempo 120 0), (0, Message ''note_on'' 60 100 0),
      (480, Message ''note_off'' 60 0 480), (480, Message ''note_on'' 60 90 0),
      (960, Message ''note_off'' 60 0 480), (960, MetaMessage_end_of_track 0)]"
  by code_simp

lemma ticks_example:
  "start_ticks note_a 480 = 0" "duration_ticks note_a 480 = 480" "start_ticks note_b 480 = 480"
  by code_simp+

theorem note_off_before_note_on_witness:
  "(2::nat) < length (encoded [note_a, note_b] 120 480)
   \<and> (3::nat) < length (encoded [note_a, note_b] 120 480)
   \<and> fst (encoded [note_a, note_b] 120 480 ! 2) = fst (encoded [note_a, note_b] 120 480 ! 3)
   \<and> is_note ''note_off'' (snd (encoded [note_a, note_b] 120 480 ! 2))
   \<and> is_note ''note_on'' (snd (encoded [note_a, note_b] 120 480 ! 3))
   \<and> (2::nat) < 3
   \<and> note_a \<in> set [note_a, note_b] \<and> note_b \<in> set [note_a, note_b]
   \<and> pitch note_a = pitch note_b
   \<and> start_ticks note_a 480 + duration_ticks note_a 480 = start_ticks note_b 480
   \<and> (\<exists>i j. i < j \<and> j < length (encoded [note_a, note_b] 120 480)
           \<and> fst (encoded [note_a, note_b] 120 480 ! i) = start_ticks note_b 480
           \<and> is_note_of ''note_off'' (pitch note_a) 0 (snd (encoded [note_a, note_b] 120 480 ! i))
           \<and> fst (encoded [note_a, note_b] 120 480 ! j) = start_ticks note_b 480
           \<and> is_note_of ''note_on'' (pitch note_b) (velocity note_b) (snd (encoded [note_a, note_b] 120 480 ! j)))"
proof -
  have h: "note_a \<in> set [note_a, note_b]" "note_b \<in> set [note_a, note_b]"
    "pitch note_a = pitch note_b"
    "start_ticks note_a 480 + duration_ticks note_a 480 = start_ticks note_b 480"
    by (simp_all add: ticks_example) (simp add: note_a_def note_b_def)
  from note_off_before_note_on [of "[note_a, note_b]" 120 480] h
  have "\<exists>i j. i < j \<and> j < length (encoded [note_a, note_b] 120 480)
           \<and> fst (encoded [note_a, note_b] 120 480 ! i) = start_ticks note_b 480
           \<and> is_note_of ''note_off'' (pitch note_a) 0 (snd (encoded [note_a, note_b] 120 480 ! i))
           \<and> fst (encoded [note_a, note_b] 120 480 ! j) = start_ticks note_b 480
           \<and> is_note_of ''note_on'' (pitch note_b) (velocity note_b) (snd (encoded [note_a, note_b] 120 480 ! j))"
    by blast
  then show ?thesis using h by (simp add: encoded_example)
qed











lemma ticks_note_z:
  "start_ticks note_z 480 = 0" "duration_ticks note_z 480 = 0"
  by code_simp+








section \<open>Properties of the project model\<close>

text \<open>
  Claim C10. For a project with at least one track and a negative track index whose
  absolute value is at most the number of tracks, \<open>add_midi_item\<close> does not raise the
  index error of its range check: it fails only if the length is omitted and the reader of
  the file's duration fails, and otherwise appends the item to the track counted from the
  end of the list (index \<open>-1\<close> is the last track).
\<close>

theorem negative_track_index_appends:
  assumes "tracks p \<noteq> []" and "track_index < 0"
    and "- track_index \<le> int (length (tracks p))"
  shows "add_midi_item rd p track_index pth pos len =
           (case (case len of None \<Rightarrow> rd pth | Some l \<Rightarrow> Inr l) of
              Inl e \<Rightarrow> Inl e
            | Inr l \<Rightarrow>
                Inr (p\<lparr>tracks :=
                         (tracks p)[nat (int (length (tracks p)) + track_index) :=
                            (tracks p ! nat (int (length (tracks p)) + track_index))
                              \<lparr>midi_items :=
                                 midi_items (tracks p ! nat (int (length (tracks p)) + track_index))
                                 @ [\<lparr>path = pth, position = pos, length_item = l\<rparr>]\<rparr>]\<rparr>))"
  using assms by (auto simp: add_midi_item_def Let_def split: sum.splits option.splits)

theorem negative_track_index_appends_witness:
  "tracks two_tracks \<noteq> [] \<and> (- 1 :: int) < 0 \<and> - (- 1) \<le> int (length (tracks two_tracks))
   \<and> add_midi_item no_midi_file two_tracks (- 1) ''drums.mid'' (Finite False 0 0) (Some (Finite False 2 0)) =
       Inr (two_tracks
              \<lparr>tracks := [\<lparr>name = ''Bass'', index = 0, guid = ''a'', midi_items = []\<rparr>,
                          \<lparr>name = ''Drums'', index = 1, guid = ''b'',
                           midi_items = [\<lparr>path = ''drums.mid'', position = Finite False 0 0,
                                          length_item = Finite False 2 0\<rparr>]\<rparr>]\<rparr>)"
proof -
  have h: "tracks two_tracks \<noteq> []" "(- 1 :: int) < 0"
    "- (- 1) \<le> int (length (tracks two_tracks))"
    by (simp_all add: two_tracks_def new_project_def)
  from negative_track_index_appends [OF h, of no_midi_file "''drums.mid''" "Finite False 0 0" "Some (Finite False 2 0)"]
  show ?thesis using h by (simp add: two_tracks_def new_project_def)
qed

text \<open>
  Claim C9. The claim says that a malformed tempo or sample-rate directive leaves the
  default in place and that parsing succeeds. In the source the value of a
  \<^verbatim>\<open>TEMPO\<close> directive goes to \<^verbatim>\<open>float()\<close> and that of a \<^verbatim>\<open>SAMPLERATE\<close>
  directive to \<^verbatim>\<open>int()\<close> with no handler around them: a value that is not a number
  raises ValueError and the load fails. An absent directive, a directive without a value
  and a render-target directive without a quoted text do leave the defaults in place.
\<close>

theorem malformed_metadata_raises:
  "load pth (nl ''TEMPO abc'') g
     = Inl (ValueError (''could not convert string to float: '' @ repr_str ''abc''))
   \<and> load pth (nl ''SAMPLERATE abc'') g
     = Inl (ValueError (''invalid literal for int() with base 10: '' @ repr_str ''abc''))
   \<and> load pth (nl ''TEMPO'' @ nl ''SAMPLERATE'' @ nl ''RENDER_FILE abc'') g
     = Inr ((new_project (Some pth))
              \<lparr>raw_lines := [nl ''TEMPO'', nl ''SAMPLERATE'', nl ''RENDER_FILE abc'']\<rparr>, g)
   \<and> load pth [] g = Inr (new_project (Some pth), g)"
  by (simp add: load_def load_lines_def readlines_def nl_def parse_metadata_line_def
      strip_def lstrip_def rstrip_def is_space_def split_def float_of_str_def
      float_number_def split_at_def lower_def lower_char_def digits_value_def
      int_of_str_def parse_tracks_def parse_track_line_def new_project_def Let_def
      is_digit_def)

section \<open>Properties of the project text\<close>

subsection \<open>Whitespace and prefixes\<close>

lemma rstrip_Nil: "rstrip [] = []"
  by (simp add: rstrip_def)

lemma rstrip_Cons:
  "rstrip (c # s) = (if rstrip s = [] \<and> is_space c then [] else c # rstrip s)"
proof -
  have "dropWhile is_space (rev s @ [c]) =
          (if \<forall>x \<in> set (rev s). is_space x then dropWhile is_space [c]
           else dropWhile is_space (rev s) @ [c])"
    by (rule dropWhile_append)
  moreover have "(\<forall>x \<in> set (rev s). is_space x) \<longleftrightarrow> dropWhile is_space (rev s) = []"
    by (simp add: dropWhile_eq_Nil_conv)
  ultimately show ?thesis by (simp add: rstrip_def)
qed

lemma rstrip_append:
  "rstrip (xs @ ys) = (if rstrip ys = [] then rstrip xs else xs @ rstrip ys)"
  by (induction xs) (simp_all add: rstrip_Cons rstrip_Nil)

lemma strip_Nil: "strip [] = []"
  by (simp add: strip_def lstrip_def rstrip_def)

lemma strip_Cons: "strip (c # s) = (if is_space c then strip s else c # rstrip s)"
  by (simp add: strip_def lstrip_def rstrip_Cons)

lemma rstrip_eq_Nil: "rstrip s = [] \<longleftrightarrow> (\<forall>c \<in> set s. is_space c)"
  by (simp add: rstrip_def dropWhile_eq_Nil_conv)

lemma rstrip_no_space: "\<forall>c \<in> set s. \<not> is_space c \<Longrightarrow> rstrip s = s"
  by (induction s) (simp_all add: rstrip_Nil rstrip_Cons)

lemma is_space_simps:
  "is_space CHR '' ''" "is_space CHR 0x0A"
  by (simp_all add: is_space_def)

lemma startswith_append: "startswith (p @ s) p"
  by (induction p) simp_all

lemma split_words_no_space:
  "\<forall>c \<in> set s. \<not> is_space c \<Longrightarrow> split_words w (s @ rest) = split_words (w @ s) rest"
  by (induction s arbitrary: w) simp_all

subsection \<open>Printing and reading integers\<close>

lemma digit_cases: "n < 10 \<Longrightarrow> n \<in> {0, 1, 2, 3, 4, 5, 6, 7, 8, 9 :: nat}"
  by auto

lemma digit_char_props:
  assumes "n < 10"
  shows "is_digit (digit_char n)" and "digit_val (digit_char n) = int n"
    and "digit_char n \<in> set ''0123456789''"
  using digit_cases [OF assms]
  by (auto simp: digit_char_def is_digit_def digit_val_def)

lemma str_pos_digits: "set (str_pos i) \<subseteq> set ''0123456789''"
proof (induction i rule: str_pos.induct)
  case (1 i)
  show ?case
  proof (cases "i < 10")
    case True
    then have "nat i < 10" by simp
    from digit_char_props(3) [OF this] True show ?thesis
      by (subst str_pos.simps) simp
  next
    case False
    have "nat (i mod 10) < 10" by simp
    from digit_char_props(3) [OF this] 1 False show ?thesis
      by (subst str_pos.simps) simp
  qed
qed

lemma str_pos_not_Nil: "str_pos i \<noteq> []"
  by (subst str_pos.simps) simp

lemma str_pos_is_digit: "c \<in> set (str_pos i) \<Longrightarrow> is_digit c"
  using str_pos_digits [of i] by (auto simp: is_digit_def)

lemma digits_ok_all_digits: "s \<noteq> [] \<Longrightarrow> \<forall>c \<in> set s. is_digit c \<Longrightarrow> digits_ok s"
proof (induction s rule: digits_ok.induct)
  case 1
  then show ?case by simp
next
  case (2 c)
  then show ?case by simp
next
  case (3 c d cs)
  then have "d \<noteq> CHR ''_''" by (auto simp: is_digit_def)
  with 3 show ?case by simp
qed

lemma digits_ok_str_pos: "digits_ok (str_pos i)"
  by (rule digits_ok_all_digits) (auto simp: str_pos_not_Nil str_pos_is_digit)

lemma remove_underscore_digits:
  "\<forall>c \<in> set s. is_digit c \<Longrightarrow> remove_char CHR ''_'' s = s"
  by (induction s) (auto simp: remove_char_def is_digit_def)

lemma digits_value_snoc:
  assumes "\<forall>c \<in> set s. is_digit c" and "is_digit d"
  shows "digits_value (s @ [d]) = 10 * digits_value s + digit_val d"
proof -
  from assms have "\<forall>c \<in> set (s @ [d]). is_digit c" by simp
  from remove_underscore_digits [OF this] remove_underscore_digits [OF assms(1)]
  show ?thesis by (simp add: digits_value_def)
qed

lemma digits_value_str_pos: "0 \<le> i \<Longrightarrow> digits_value (str_pos i) = i"
proof (induction i rule: str_pos.induct)
  case (1 i)
  show ?case
  proof (cases "i < 10")
    case True
    with 1 have n: "nat i < 10" by simp
    have "digits_value ([] @ [digit_char (nat i)])
            = 10 * digits_value [] + digit_val (digit_char (nat i))"
      by (rule digits_value_snoc) (simp_all add: digit_char_props(1) [OF n])
    with digit_char_props(2) [OF n] True 1(2) show ?thesis
      by (subst str_pos.simps) (simp add: digits_value_def remove_char_def)
  next
    case False
    have d: "nat (i mod 10) < 10" by simp
    from False 1 have ih: "digits_value (str_pos (i div 10)) = i div 10" by simp
    have "digits_value (str_pos (i div 10) @ [digit_char (nat (i mod 10))])
            = 10 * digits_value (str_pos (i div 10)) + digit_val (digit_char (nat (i mod 10)))"
      by (rule digits_value_snoc) (auto simp: str_pos_is_digit digit_char_props(1) [OF d])
    with ih digit_char_props(2) [OF d] False show ?thesis
      by (subst str_pos.simps) simp
  qed
qed

lemma str_int_no_space: "c \<in> set (str_int i) \<Longrightarrow> \<not> is_space c"
  using str_pos_digits [of i] str_pos_digits [of "- i"]
  by (auto simp: str_int_def is_space_def split: if_splits)

lemma str_int_not_Nil: "str_int i \<noteq> []"
  by (simp add: str_int_def str_pos_not_Nil)

lemma strip_no_space: "\<forall>c \<in> set s. \<not> is_space c \<Longrightarrow> strip s = s"
  by (cases s) (simp_all add: strip_Nil strip_Cons rstrip_no_space)

lemma int_of_str_str_int: "int_of_str (str_int i) = Some i"
proof (cases "i < 0")
  case True
  have "strip (str_int i) = str_int i"
    by (rule strip_no_space) (auto dest: str_int_no_space)
  with True show ?thesis
    by (simp add: int_of_str_def str_int_def digits_ok_str_pos digits_value_str_pos)
next
  case False
  have s: "strip (str_int i) = str_int i"
    by (rule strip_no_space) (auto dest: str_int_no_space)
  obtain c cs where cs: "str_pos i = c # cs"
    using str_pos_not_Nil [of i] by (cases "str_pos i") auto
  then have "is_digit c" using str_pos_is_digit [of c i] by simp
  then have "c \<noteq> CHR ''-''" "c \<noteq> CHR ''+''" by (auto simp: is_digit_def)
  moreover have "digits_ok (c # cs)" "digits_value (c # cs) = i"
    using digits_ok_str_pos [of i] digits_value_str_pos [of i] False cs by simp_all
  ultimately show ?thesis using s False cs
    by (simp add: int_of_str_def str_int_def)
qed


subsection \<open>Texts without line breaks\<close>

lemma no_linebreak_append: "no_linebreak (a @ b) \<longleftrightarrow> no_linebreak a \<and> no_linebreak b"
  by (auto simp: no_linebreak_def)

lemma no_linebreak_Cons:
  "no_linebreak (c # s) \<longleftrightarrow> c \<noteq> CHR 0x0A \<and> c \<noteq> CHR 0x0D \<and> no_linebreak s"
  by (auto simp: no_linebreak_def)

lemma no_linebreak_Nil: "no_linebreak []"
  by (simp add: no_linebreak_def)

lemma no_linebreak_subset: "set a \<subseteq> set b \<Longrightarrow> no_linebreak b \<Longrightarrow> no_linebreak a"
  by (auto simp: no_linebreak_def)

lemma no_linebreak_dq: "no_linebreak (dq s) \<longleftrightarrow> no_linebreak s"
  by (auto simp: no_linebreak_def dq_def)

lemma no_linebreak_str_pos: "no_linebreak (str_pos i)"
  using str_pos_digits [of i] by (auto simp: no_linebreak_def)

lemma no_linebreak_str_int: "no_linebreak (str_int i)"
  by (simp add: str_int_def no_linebreak_Cons no_linebreak_str_pos)

lemma no_linebreak_replicate:
  "c \<noteq> CHR 0x0A \<Longrightarrow> c \<noteq> CHR 0x0D \<Longrightarrow> no_linebreak (replicate n c)"
  by (auto simp: no_linebreak_def)

lemma no_linebreak_str_float: "no_linebreak (str_float x)"
proof (cases x)
  case NaN
  then show ?thesis by (simp add: str_float_def no_linebreak_def)
next
  case (Infinity neg)
  then show ?thesis by (simp add: str_float_def no_linebreak_def)
next
  case (Finite neg m0 k0)
  obtain m k where mk: "strip_zeros m0 k0 = (m, k)" by (cases "strip_zeros m0 k0") auto
  define ds where "ds = str_nat (m div 10 ^ count_zeros m)"
  have ds: "no_linebreak ds" "ds \<noteq> []"
    using no_linebreak_str_pos str_pos_not_Nil by (simp_all add: ds_def str_nat_def)
  have hd: "hd ds \<noteq> CHR 0x0A" "hd ds \<noteq> CHR 0x0D"
    using ds by (cases ds, simp, simp add: no_linebreak_Cons)+
  have tl: "no_linebreak (tl ds)"
    using ds by (cases ds) (simp_all add: no_linebreak_Cons)
  have tk: "no_linebreak (take n ds)" for n
    using set_take_subset ds(1) by (rule no_linebreak_subset)
  have dr: "no_linebreak (drop n ds)" for n
    using set_drop_subset ds(1) by (rule no_linebreak_subset)
  have ex: "no_linebreak (str_nat n)" for n
    by (simp add: str_nat_def no_linebreak_str_pos)
  have "no_linebreak (str_float (Finite neg m0 k0))"
    unfolding str_float_def pyfloat.case mk prod.case Let_def ds_def [symmetric]
    by (simp add: no_linebreak_append no_linebreak_Cons no_linebreak_Nil
        no_linebreak_replicate ds(1) hd tl tk dr ex del: replicate.simps)
  with Finite show ?thesis by simp
qed

lemma hex_char_chars: "n < 16 \<Longrightarrow> hex_char n \<in> set ''0123456789abcdef''"
  unfolding hex_char_def by (rule nth_mem) simp

lemma unat_and_15: "unat (and x (15 :: 128 word)) < 16"
proof -
  have "and x 15 \<le> (15 :: 128 word)" by (rule word_and_le1)
  then have "unat (and x 15) \<le> unat (15 :: 128 word)" by (simp add: word_le_nat_alt)
  then show ?thesis by simp
qed

lemma hex_digits_chars: "set (hex_digits w) \<subseteq> set ''0123456789abcdef''"
  unfolding hex_digits_def using hex_char_chars [OF unat_and_15] by auto

lemma no_linebreak_str_uuid: "no_linebreak (str_uuid w)"
proof -
  define H where "H = set ''0123456789abcdef''"
  have h: "set (hex_digits w) \<subseteq> H"
    using hex_digits_chars by (simp add: H_def)
  have a: "c \<in> set (take n (drop k (hex_digits w))) \<Longrightarrow> c \<in> H" for c n k
    using h set_take_subset [of n "drop k (hex_digits w)"]
      set_drop_subset [of k "hex_digits w"] by blast
  have b: "c \<in> set (take n (hex_digits w)) \<Longrightarrow> c \<in> H" for c n
    using h set_take_subset [of n "hex_digits w"] by blast
  have c: "c \<in> set (drop k (hex_digits w)) \<Longrightarrow> c \<in> H" for c k
    using h set_drop_subset [of k "hex_digits w"] by blast
  have "set (str_uuid w) \<subseteq> insert CHR ''-'' H"
    unfolding str_uuid_def Let_def by (auto dest: a b c)
  moreover have "CHR 0x0A \<notin> insert CHR ''-'' H" "CHR 0x0D \<notin> insert CHR ''-'' H"
    by (simp_all add: H_def)
  ultimately show ?thesis by (auto simp: no_linebreak_def)
qed

lemma no_linebreak_uuid4: "no_linebreak (fst (uuid4 g))"
  by (simp add: uuid4_def no_linebreak_str_uuid)

lemma path_name_subset: "set (path_name p) \<subseteq> set p"
  using set_takeWhileD [of _ "\<lambda>c. c \<noteq> CHR ''/''" "rev p"]
  by (auto simp: path_name_def)

lemma path_stem_subset: "set (path_stem p) \<subseteq> set p"
  using path_name_subset [of p] set_take_subset [of _ "path_name p"]
  by (auto simp: path_stem_def Let_def)

lemma no_linebreak_path_stem: "no_linebreak p \<Longrightarrow> no_linebreak (path_stem p)"
  using path_stem_subset by (rule no_linebreak_subset)

subsection \<open>Reading back the lines written\<close>

lemma readlines_from_line:
  "no_linebreak body \<Longrightarrow>
   readlines_from cur (body @ CHR 0x0A # rest) = (cur @ body @ [CHR 0x0A]) # readlines_from [] rest"
  by (induction body arbitrary: cur) (simp_all add: no_linebreak_Cons)

lemma readlines_lines:
  "\<forall>l \<in> set ls. \<exists>body. l = nl body \<and> no_linebreak body \<Longrightarrow>
   readlines (writelines ls) = ls"
proof (induction ls)
  case Nil
  show ?case by (simp add: readlines_def writelines_def)
next
  case (Cons l ls)
  then obtain body where l: "l = nl body" "no_linebreak body" by auto
  from Cons have "readlines (writelines ls) = ls" by simp
  with readlines_from_line [OF l(2), of "[]" "concat ls"] l(1) show ?case
    by (simp add: readlines_def writelines_def nl_def)
qed


subsection \<open>The lines that the loader passes over\<close>

lemma startswith_prefix: "startswith (a @ b) p \<Longrightarrow> length p \<le> length a \<Longrightarrow> startswith a p"
proof (induction a p rule: startswith.induct)
  case (1 s)
  show ?case by simp
next
  case (2 p ps)
  then show ?case by simp
next
  case (3 c cs p ps)
  then show ?case by simp
qed

lemma startswith_extend: "startswith a p \<Longrightarrow> startswith (a @ b) p"
  by (induction a p rule: startswith.induct) simp_all

lemma strip_lstrip: "\<exists>r. lstrip l = strip l @ r"
proof -
  have "\<exists>r. l = rstrip l @ r"
    unfolding rstrip_def
    by (metis append_take_drop_id rev_append rev_rev_ident takeWhile_dropWhile_id)
  then obtain r where r: "l = rstrip l @ r" by blast
  show ?thesis
  proof (cases "\<forall>c \<in> set (rstrip l). is_space c")
    case True
    then have "strip l = []" by (simp add: strip_def lstrip_def)
    then show ?thesis by simp
  next
    case False
    then obtain x where "x \<in> set (rstrip l)" "\<not> is_space x" by blast
    then have "dropWhile is_space (rstrip l @ r) = dropWhile is_space (rstrip l) @ r"
      by (rule dropWhile_append1)
    with r show ?thesis by (metis lstrip_def strip_def)
  qed
qed

lemma not_startswith_strip: "\<not> startswith (lstrip l) p \<Longrightarrow> \<not> startswith (strip l) p"
  using strip_lstrip [of l] startswith_extend by metis

lemma strip_not_close: "\<not> startswith (lstrip l) ''>'' \<Longrightarrow> strip l \<noteq> ''>''"
  using not_startswith_strip [of l "''>''"] by auto

lemma meta_quietI:
  "\<not> startswith (lstrip l) ''TEMPO '' \<Longrightarrow> \<not> startswith (lstrip l) ''SAMPLERATE '' \<Longrightarrow>
   \<not> startswith (lstrip l) ''RENDER_FILE '' \<Longrightarrow> meta_quiet l"
  by (simp add: meta_quiet_def not_startswith_strip)

lemma track_quietI: "\<not> startswith (lstrip l) ''<TRACK'' \<Longrightarrow> track_quiet l"
  by (simp add: track_quiet_def not_startswith_strip)

lemma inner_quietI:
  "\<not> startswith (lstrip l) ''<TRACK'' \<Longrightarrow> \<not> startswith (lstrip l) ''NAME '' \<Longrightarrow>
   \<not> startswith (lstrip l) ''>'' \<Longrightarrow> inner_quiet l"
  by (simp add: inner_quiet_def not_startswith_strip strip_not_close)

lemma strip_core:
  assumes "s \<noteq> []" and "\<not> is_space (hd s)" and "\<not> is_space (last s)"
    and "\<forall>c \<in> set pre. is_space c" and "\<forall>c \<in> set post. is_space c"
  shows "strip (pre @ s @ post) = s"
proof -
  have "dropWhile is_space (rev post @ rev s @ rev pre) = dropWhile is_space (rev s @ rev pre)"
    using assms(5) by (simp add: dropWhile_append)
  also have "\<dots> = rev s @ rev pre"
  proof -
    define t where "t = rev s"
    from assms(1) obtain a as where a: "t = a # as" by (cases t) (auto simp: t_def)
    then have "a = last s" using hd_rev [of s] by (simp add: t_def)
    with assms(3) a have "dropWhile is_space (t @ rev pre) = t @ rev pre" by simp
    then show ?thesis by (simp add: t_def)
  qed
  finally have "rstrip (pre @ s @ post) = pre @ s"
    by (simp add: rstrip_def)
  moreover have "dropWhile is_space (pre @ s) = s"
    using assms(1,2,4) by (cases s) (simp_all add: dropWhile_append)
  ultimately show ?thesis by (simp add: strip_def lstrip_def)
qed

lemma parse_metadata_line_quiet: "meta_quiet l \<Longrightarrow> parse_metadata_line p l = Inr p"
  by (simp add: meta_quiet_def parse_metadata_line_def Let_def)

lemma parse_metadata_quiet: "list_all meta_quiet ls \<Longrightarrow> parse_metadata p ls = Inr p"
  by (induction ls) (simp_all add: parse_metadata_line_quiet)

lemma parse_metadata_append:
  "parse_metadata p (xs @ ys) =
     (case parse_metadata p xs of Inl e \<Rightarrow> Inl e | Inr p' \<Rightarrow> parse_metadata p' ys)"
  by (induction xs arbitrary: p) (simp_all split: sum.splits)

lemma parse_track_line_quiet:
  "\<not> in_track st \<Longrightarrow> track_quiet l \<Longrightarrow> parse_track_line st l = st"
  by (simp add: track_quiet_def parse_track_line_def Let_def)

lemma parse_track_line_inner:
  "inner_quiet l \<Longrightarrow> parse_track_line st l = st"
  by (simp add: inner_quiet_def parse_track_line_def Let_def)

lemma scan_quiet:
  "\<not> in_track st \<Longrightarrow> list_all track_quiet ls \<Longrightarrow> foldl parse_track_line st ls = st"
  by (induction ls) (simp_all add: parse_track_line_quiet)

lemma scan_inner:
  "list_all inner_quiet ls \<Longrightarrow> foldl parse_track_line st ls = st"
  by (induction ls) (simp_all add: parse_track_line_inner)


lemmas lstrip_simps = nl_def dq_def lstrip_def is_space_def

lemma reasynth_fx_meta_quiet: "list_all meta_quiet (fst (generate_reasynth_fx g))"
  by (simp add: generate_reasynth_fx_def uuid4_def meta_quietI lstrip_simps)

lemma reasynth_fx_scan:
  "list_all inner_quiet (take 10 (fst (generate_reasynth_fx g)))"
  "fst (generate_reasynth_fx g) ! 10 = nl ''      >''"
  "list_all track_quiet (drop 11 (fst (generate_reasynth_fx g)))"
  "length (fst (generate_reasynth_fx g)) = 15"
  "take 10 (fst (generate_reasynth_fx g)) @ [nl ''      >''] @ drop 11 (fst (generate_reasynth_fx g))
     = fst (generate_reasynth_fx g)"
  by (simp_all add: generate_reasynth_fx_def uuid4_def inner_quietI track_quietI lstrip_simps)

lemma midi_item_quiet:
  "list_all meta_quiet (fst (generate_midi_item item g))"
  "list_all track_quiet (fst (generate_midi_item item g))"
  by (simp_all add: generate_midi_item_def uuid4_def meta_quietI track_quietI Let_def
      lstrip_simps)

lemma midi_items_quiet:
  "list_all meta_quiet (fst (generate_midi_items items g))
   \<and> list_all track_quiet (fst (generate_midi_items items g))"
proof (induction items arbitrary: g)
  case Nil
  show ?case by simp
next
  case (Cons item items)
  from midi_item_quiet [of item g] Cons [of "snd (generate_midi_item item g)"]
  show ?case by (simp add: case_prod_beta)
qed

lemma generate_track_lines:
  "fst (generate_track t b g) =
     [nl (''  <TRACK '' @ ''{'' @ guid t @ ''}''),
      nl (''    NAME '' @ dq (name t)),
      nl ''    PEAKCOL 16576'', nl ''    BEAT -1'', nl ''    AUTOMODE 0'',
      nl ''    VOLPAN 1 0 -1 -1 1'', nl ''    REC 0 0 1 0 0 0 0 0'', nl ''    VU 2'',
      nl ''    NCHAN 2'', nl ''    FX 1'',
      nl (''    TRACKID '' @ ''{'' @ guid t @ ''}''),
      nl ''    PERF 0'', nl ''    MIDIOUT -1'', nl ''    MAINSEND 1 0'']
     @ (if b \<and> midi_items t \<noteq> [] then fst (generate_reasynth_fx g) else [])
     @ fst (generate_midi_items (midi_items t)
              (if b \<and> midi_items t \<noteq> [] then snd (generate_reasynth_fx g) else g))
     @ [nl ''  >'']"
  by (simp add: generate_track_def Let_def split: prod.splits)

lemma generate_new_project_lines:
  "fst (generate_new_project p g) =
     take 23 (fst (generate_new_project p g)) @ fst (generate_tracks (tracks p) g) @ [nl ''>'']"
  by (simp add: generate_new_project_def Let_def split: prod.splits)


subsection \<open>Saving twice\<close>

lemma mask_ids_append: "mask_ids (xs @ ys) = mask_ids xs @ mask_ids ys"
  by (simp add: mask_ids_def)

lemma mask_reasynth_fx:
  "mask_ids (fst (generate_reasynth_fx g1)) = mask_ids (fst (generate_reasynth_fx g2))"
  by (simp add: generate_reasynth_fx_def uuid4_def mask_ids_def fresh_id_line_def nl_def dq_def)

lemma mask_midi_item:
  "mask_ids (fst (generate_midi_item item g1)) = mask_ids (fst (generate_midi_item item g2))"
  by (simp add: generate_midi_item_def uuid4_def mask_ids_def fresh_id_line_def nl_def dq_def
      Let_def)

lemma mask_midi_items:
  "mask_ids (fst (generate_midi_items items g1)) = mask_ids (fst (generate_midi_items items g2))"
proof (induction items arbitrary: g1 g2)
  case Nil
  show ?case by simp
next
  case (Cons item items)
  have "mask_ids (fst (generate_midi_items (item # items) g)) =
          mask_ids (fst (generate_midi_item item g))
          @ mask_ids (fst (generate_midi_items items (snd (generate_midi_item item g))))" for g
    by (simp add: mask_ids_append split: prod.splits)
  then show ?case
    using mask_midi_item [of item g1 g2]
      Cons.IH [of "snd (generate_midi_item item g1)" "snd (generate_midi_item item g2)"]
    by simp
qed

lemma mask_track:
  "mask_ids (fst (generate_track t b g1)) = mask_ids (fst (generate_track t b g2))"
proof (cases "b \<and> midi_items t \<noteq> []")
  case True
  then show ?thesis
    using mask_reasynth_fx [of g1 g2]
      mask_midi_items [of "midi_items t" "snd (generate_reasynth_fx g1)"
        "snd (generate_reasynth_fx g2)"]
    by (simp only: generate_track_lines mask_ids_append) simp
next
  case False
  then show ?thesis
    using mask_midi_items [of "midi_items t" g1 g2]
    by (simp only: generate_track_lines mask_ids_append) auto
qed

lemma mask_tracks:
  "mask_ids (fst (generate_tracks ts g1)) = mask_ids (fst (generate_tracks ts g2))"
proof (induction ts arbitrary: g1 g2)
  case Nil
  show ?case by simp
next
  case (Cons t ts)
  have "mask_ids (fst (generate_tracks (t # ts) g)) =
          mask_ids (fst (generate_track t True g))
          @ mask_ids (fst (generate_tracks ts (snd (generate_track t True g))))" for g
    by (simp add: mask_ids_append split: prod.splits)
  then show ?case
    using mask_track [of t True g1 g2]
      Cons.IH [of "snd (generate_track t True g1)" "snd (generate_track t True g2)"]
    by simp
qed

lemma generate_new_project_head:
  "take 23 (fst (generate_new_project p g1)) = take 23 (fst (generate_new_project p g2))"
  by (simp add: generate_new_project_def Let_def split: prod.splits)

lemma mask_new_project:
  "mask_ids (fst (generate_new_project p g1)) = mask_ids (fst (generate_new_project p g2))"
proof -
  have "mask_ids (fst (generate_new_project p g1)) =
          mask_ids (take 23 (fst (generate_new_project p g1)))
          @ mask_ids (fst (generate_tracks (tracks p) g1)) @ mask_ids [nl ''>'']"
    using generate_new_project_lines [of p g1] by (metis mask_ids_append)
  moreover have "mask_ids (fst (generate_new_project p g2)) =
          mask_ids (take 23 (fst (generate_new_project p g2)))
          @ mask_ids (fst (generate_tracks (tracks p) g2)) @ mask_ids [nl ''>'']"
    using generate_new_project_lines [of p g2] by (metis mask_ids_append)
  ultimately show ?thesis
    using generate_new_project_head [of p g1 g2] mask_tracks [of "tracks p" g1 g2] by simp
qed

lemma track_without_items:
  "midi_items t = [] \<Longrightarrow> generate_track t b g1 = (fst (generate_track t b g2), g1)"
  by (simp add: generate_track_def Let_def)

lemma tracks_without_items:
  "\<forall>t \<in> set ts. midi_items t = [] \<Longrightarrow> generate_tracks ts g1 = (fst (generate_tracks ts g2), g1)"
proof (induction ts arbitrary: g1 g2)
  case Nil
  show ?case by simp
next
  case (Cons t ts)
  then have t: "midi_items t = []" and ts: "\<forall>t \<in> set ts. midi_items t = []" by simp_all
  define L where "L = fst (generate_track t True g2)"
  define M where "M = fst (generate_tracks ts g2)"
  have a: "generate_track t True g1 = (L, g1)" "generate_track t True g2 = (L, g2)"
    using track_without_items [OF t, of True g1 g2] track_without_items [OF t, of True g2 g2]
    by (simp_all add: L_def)
  have b: "generate_tracks ts g1 = (M, g1)" "generate_tracks ts g2 = (M, g2)"
    using Cons.IH [OF ts, of g1 g2] Cons.IH [OF ts, of g2 g2] by (simp_all add: M_def)
  show ?case by (simp add: a b)
qed

lemma concat_same_lengths:
  "map length xs = map length ys \<Longrightarrow> concat xs = concat ys \<Longrightarrow> xs = ys"
proof (induction xs arbitrary: ys)
  case Nil
  then show ?case by simp
next
  case (Cons x xs)
  then obtain y ys' where ys: "ys = y # ys'" by (cases ys) auto
  with Cons.prems have "length x = length y" "map length xs = map length ys'"
    "x @ concat xs = y @ concat ys'" by simp_all
  then have "x = y" "concat xs = concat ys'" by simp_all
  with Cons.IH [OF \<open>map length xs = map length ys'\<close>] ys show ?case by simp
qed

text \<open>
  Claim C2, as stated: two serializations of the same unchanged model give identical
  text. The source draws fresh identifiers with \<^verbatim>\<open>uuid.uuid4()\<close> each time it writes
  the synthesizer block and an item block. With a supply of identifiers that are all
  different, saving the example project twice in a row gives two different texts.
\<close>

theorem save_twice_counterexample:
  "fst (save drums_project counting_supply)
   \<noteq> fst (save drums_project (snd (save drums_project counting_supply)))"
proof -
  let ?g = "snd (generate_new_project drums_project counting_supply)"
  let ?xs = "fst (generate_new_project drums_project counting_supply)"
  let ?ys = "fst (generate_new_project drums_project ?g)"
  have "?xs ! 49 \<noteq> ?ys ! 49" by code_simp
  then have "?xs \<noteq> ?ys" by auto
  moreover have "map length ?xs = map length ?ys" by code_simp
  ultimately have "concat ?xs \<noteq> concat ?ys"
    using concat_same_lengths by blast
  then show ?thesis
    by (simp add: save_def writelines_def case_prod_beta)
qed

text \<open>
  Claim C2, amended. Serialization is deterministic up to the identifiers it draws: two
  serializations of the same model, from any two states of the identifier supply, give the
  same lines except for the \<^verbatim>\<open>FXID\<close>, \<^verbatim>\<open>IGUID\<close> and \<^verbatim>\<open>GUID\<close> lines, and
  when no track of the model holds a placed item they give the same text, character for
  character, and draw no identifier.
\<close>

theorem save_deterministic_up_to_ids:
  "mask_ids (fst (generate_new_project p g1)) = mask_ids (fst (generate_new_project p g2))
   \<and> ((\<forall>t \<in> set (tracks p). midi_items t = []) \<longrightarrow> save p g1 = (fst (save p g2), g1))"
proof
  show "mask_ids (fst (generate_new_project p g1)) = mask_ids (fst (generate_new_project p g2))"
    by (rule mask_new_project)
  show "(\<forall>t \<in> set (tracks p). midi_items t = []) \<longrightarrow> save p g1 = (fst (save p g2), g1)"
  proof
    assume "\<forall>t \<in> set (tracks p). midi_items t = []"
    then have ts: "\<forall>t \<in> set (tracks p). midi_items t = []" .
    define M where "M = fst (generate_tracks (tracks p) g2)"
    have b: "generate_tracks (tracks p) g1 = (M, g1)" "generate_tracks (tracks p) g2 = (M, g2)"
      using tracks_without_items [OF ts, of g1 g2] tracks_without_items [OF ts, of g2 g2]
      by (simp_all add: M_def)
    show "save p g1 = (fst (save p g2), g1)"
      by (simp add: save_def generate_new_project_def Let_def b)
  qed
qed

theorem save_deterministic_up_to_ids_witness:
  "map midi_items (tracks two_tracks) = [[], []]
   \<and> save two_tracks counting_supply
       = (fst (save two_tracks (\<lambda>n. of_nat (n + 7))), counting_supply)
   \<and> mask_ids (fst (generate_new_project drums_project counting_supply))
       = mask_ids (fst (generate_new_project drums_project (\<lambda>n. of_nat (n + 7))))"
proof -
  have h: "\<forall>t \<in> set (tracks two_tracks). midi_items t = []"
    by (simp add: two_tracks_def new_project_def)
  have "map midi_items (tracks two_tracks) = [[], []]"
    by (simp add: two_tracks_def new_project_def)
  with save_deterministic_up_to_ids [of two_tracks counting_supply "\<lambda>n. of_nat (n + 7)"]
    save_deterministic_up_to_ids [of drums_project counting_supply "\<lambda>n. of_nat (n + 7)"] h
  show ?thesis by blast
qed


subsection \<open>The lines that the loader reads\<close>

lemma strip_directive:
  assumes "body \<noteq> []" and "\<not> is_space (hd body)" and "\<not> is_space (last body)"
  shows "strip (nl (''  '' @ body)) = body" and "strip (nl (''    '' @ body)) = body"
    and "strip (nl (''      '' @ body)) = body"
  using strip_core [OF assms, of "''  ''" "[CHR 0x0A]"]
    strip_core [OF assms, of "''    ''" "[CHR 0x0A]"]
    strip_core [OF assms, of "''      ''" "[CHR 0x0A]"]
  by (simp_all add: nl_def is_space_def)

lemma split_words_str_int:
  "split_words [] (str_int r @ CHR '' '' # rest) = str_int r # split_words [] rest"
proof -
  have "\<forall>c \<in> set (str_int r). \<not> is_space c" by (auto dest: str_int_no_space)
  from split_words_no_space [OF this, of "[]" "CHR '' '' # rest"]
  show ?thesis by (simp add: str_int_not_Nil is_space_def)
qed

lemma samplerate_line:
  "parse_metadata_line q (nl (''  SAMPLERATE '' @ str_int r @ '' 0 0''))
     = Inr (q\<lparr>sample_rate := r\<rparr>)"
proof -
  define body where "body = ''SAMPLERATE '' @ str_int r @ '' 0 0''"
  have "strip (nl (''  '' @ body)) = body"
    by (rule strip_directive) (simp_all add: body_def is_space_def)
  then have s: "strip (nl (''  SAMPLERATE '' @ str_int r @ '' 0 0'')) = body"
    by (simp add: body_def)
  have w: "split body = [''SAMPLERATE'', str_int r, ''0'', ''0'']"
    by (simp add: body_def split_def is_space_def split_words_str_int)
  have p: "\<not> startswith body ''TEMPO ''" "startswith body ''SAMPLERATE ''"
    by (simp_all add: body_def)
  show ?thesis
    unfolding parse_metadata_line_def s Let_def
    by (simp add: w p int_of_str_str_int)
qed

lemma tempo_128_text: "str_float (Finite False 128 0) = ''128.0''"
  by code_simp

lemma tempo_128_line_parts:
  "strip (nl ''  TEMPO 128.0 4 4'') = ''TEMPO 128.0 4 4''"
  "split ''TEMPO 128.0 4 4'' = [''TEMPO'', ''128.0'', ''4'', ''4'']"
  "float_of_str ''128.0'' = Some (Finite False 128 0)"
  by code_simp+

lemma tempo_128_line:
  "parse_metadata_line q (nl ''  TEMPO 128.0 4 4'') = Inr (q\<lparr>tempo := Finite False 128 0\<rparr>)"
  unfolding parse_metadata_line_def tempo_128_line_parts Let_def
  by (simp add: tempo_128_line_parts)

lemma render_file_line:
  "\<exists>m. parse_metadata_line q (nl (''  RENDER_FILE '' @ dq rf)) = Inr (q\<lparr>render_file := m\<rparr>)"
proof -
  define body where "body = ''RENDER_FILE '' @ dq rf"
  have "strip (nl (''  '' @ body)) = body"
    by (rule strip_directive) (simp_all add: body_def is_space_def dq_def)
  then have s: "strip (nl (''  RENDER_FILE '' @ dq rf)) = body"
    by (simp add: body_def)
  have p: "\<not> startswith body ''TEMPO ''" "\<not> startswith body ''SAMPLERATE ''"
    "startswith body ''RENDER_FILE ''"
    by (simp_all add: body_def)
  have e: "parse_metadata_line q (nl (''  RENDER_FILE '' @ dq rf))
          = (case re_quoted body of
               Some m \<Rightarrow> Inr (q\<lparr>render_file := m\<rparr>)
             | None \<Rightarrow> Inr q)"
    unfolding parse_metadata_line_def s Let_def by (simp add: p)
  show ?thesis
  proof (cases "re_quoted body")
    case None
    with e have "parse_metadata_line q (nl (''  RENDER_FILE '' @ dq rf))
                   = Inr (q\<lparr>render_file := render_file q\<rparr>)" by simp
    then show ?thesis by (rule exI)
  next
    case (Some m)
    with e have "parse_metadata_line q (nl (''  RENDER_FILE '' @ dq rf))
                   = Inr (q\<lparr>render_file := m\<rparr>)" by simp
    then show ?thesis by (rule exI)
  qed
qed

lemma track_open_line:
  "parse_track_line st (nl (''  <TRACK '' @ ''{'' @ gd @ ''}'')) =
     st\<lparr>in_track := True,
        current_track :=
          Some \<lparr>name = ''Track '' @ str_int (track_idx st + 1), index = track_idx st,
                guid = fst (case re_braced (''<TRACK {'' @ gd @ ''}'') of
                              Some m \<Rightarrow> (m, scan_supply st)
                            | None \<Rightarrow> uuid4 (scan_supply st)),
                midi_items = []\<rparr>,
        track_idx := track_idx st + 1,
        scan_supply := snd (case re_braced (''<TRACK {'' @ gd @ ''}'') of
                              Some m \<Rightarrow> (m, scan_supply st)
                            | None \<Rightarrow> uuid4 (scan_supply st))\<rparr>"
proof -
  define body where "body = ''<TRACK {'' @ gd @ ''}''"
  have "strip (nl (''  '' @ body)) = body"
    by (rule strip_directive) (simp_all add: body_def is_space_def)
  then have s: "strip (nl (''  <TRACK '' @ ''{'' @ gd @ ''}'')) = body"
    by (simp add: body_def)
  have p: "startswith body ''<TRACK''"
    by (simp add: body_def)
  show ?thesis
    unfolding parse_track_line_def s Let_def body_def [symmetric]
    by (simp add: p case_prod_beta)
qed

lemma name_drums_parts:
  "strip (nl (''    NAME '' @ dq ''Drums'')) = ''NAME '' @ dq ''Drums''"
  "re_quoted (''NAME '' @ dq ''Drums'') = Some ''Drums''"
  "\<not> startswith (''NAME '' @ dq ''Drums'') ''<TRACK''"
  "startswith (''NAME '' @ dq ''Drums'') ''NAME ''"
  by code_simp+

lemma close_parts:
  "strip (nl ''      >'') = ''>''" "\<not> startswith ''>'' ''<TRACK''" "\<not> startswith ''>'' ''NAME ''"
  by code_simp+

lemma name_drums_line:
  "in_track st \<Longrightarrow> current_track st = Some t \<Longrightarrow>
   parse_track_line st (nl (''    NAME '' @ dq ''Drums''))
     = st\<lparr>current_track := Some (t\<lparr>name := ''Drums''\<rparr>)\<rparr>"
  unfolding parse_track_line_def name_drums_parts Let_def
  by (simp add: name_drums_parts)

lemma close_line:
  "in_track st \<Longrightarrow> current_track st = Some t \<Longrightarrow>
   parse_track_line st (nl ''      >'')
     = st\<lparr>scan_tracks := scan_tracks st @ [t], current_track := None, in_track := False\<rparr>"
  unfolding parse_track_line_def close_parts Let_def
  by (simp add: close_parts)


subsection \<open>Saving and loading again\<close>

lemma proper_nl: "proper_line (nl body) \<longleftrightarrow> no_linebreak body"
  by (simp add: proper_line_def nl_def)

lemma readlines_proper: "list_all proper_line ls \<Longrightarrow> readlines (writelines ls) = ls"
proof (rule readlines_lines, rule ballI)
  fix l assume "list_all proper_line ls" and "l \<in> set ls"
  then have "proper_line l" by (simp add: list_all_iff)
  then have "l = nl (butlast l) \<and> no_linebreak (butlast l)"
    using append_butlast_last_id [of l] by (auto simp: proper_line_def nl_def)
  then show "\<exists>body. l = nl body \<and> no_linebreak body" by blast
qed

lemmas no_linebreak_simps =
  proper_nl no_linebreak_append no_linebreak_Cons no_linebreak_Nil no_linebreak_dq
  no_linebreak_str_float no_linebreak_str_int no_linebreak_str_uuid no_linebreak_path_stem

lemma proper_reasynth_fx: "list_all proper_line (fst (generate_reasynth_fx g))"
  by (simp add: generate_reasynth_fx_def uuid4_def no_linebreak_simps)

lemma proper_midi_item:
  "no_linebreak (path item) \<Longrightarrow> list_all proper_line (fst (generate_midi_item item g))"
  by (simp add: generate_midi_item_def uuid4_def Let_def no_linebreak_simps)

lemma proper_midi_items:
  "\<forall>item \<in> set items. no_linebreak (path item) \<Longrightarrow>
   list_all proper_line (fst (generate_midi_items items g))"
proof (induction items arbitrary: g)
  case Nil
  show ?case by simp
next
  case (Cons item items)
  from proper_midi_item [of item g] Cons.IH [of "snd (generate_midi_item item g)"] Cons.prems
  show ?case by (simp add: case_prod_beta)
qed

lemma proper_track:
  assumes "no_linebreak (guid t)" and "no_linebreak (name t)"
    and "\<forall>item \<in> set (midi_items t). no_linebreak (path item)"
  shows "list_all proper_line (fst (generate_track t b g))"
  using assms proper_reasynth_fx [of g]
    proper_midi_items [OF assms(3), of "snd (generate_reasynth_fx g)"]
    proper_midi_items [OF assms(3), of g]
  by (simp add: generate_track_lines no_linebreak_simps)

lemma proper_header:
  "no_linebreak (render_file p) \<Longrightarrow>
   list_all proper_line (take 23 (fst (generate_new_project p g)))"
  by (simp add: generate_new_project_def Let_def case_prod_beta no_linebreak_simps)

lemma header_track_quiet:
  "list_all track_quiet (take 23 (fst (generate_new_project p g)))"
  by (simp add: generate_new_project_def Let_def case_prod_beta track_quietI lstrip_simps)

lemma header_parts:
  "list_all meta_quiet (take 4 (fst (generate_new_project p g)))"
  "fst (generate_new_project p g) ! 4 = nl (''  SAMPLERATE '' @ str_int (sample_rate p) @ '' 0 0'')"
  "fst (generate_new_project p g) ! 5 = nl (''  TEMPO '' @ str_float (tempo p) @ '' 4 4'')"
  "list_all meta_quiet (take 8 (drop 6 (fst (generate_new_project p g))))"
  "fst (generate_new_project p g) ! 14 = nl (''  RENDER_FILE '' @ dq (render_file p))"
  "list_all meta_quiet (take 8 (drop 15 (fst (generate_new_project p g))))"
  by (simp_all add: generate_new_project_def Let_def case_prod_beta meta_quietI lstrip_simps)

lemma header_split:
  "take 23 (fst (generate_new_project p g)) =
     take 4 (fst (generate_new_project p g))
     @ [fst (generate_new_project p g) ! 4] @ [fst (generate_new_project p g) ! 5]
     @ take 8 (drop 6 (fst (generate_new_project p g)))
     @ [fst (generate_new_project p g) ! 14]
     @ take 8 (drop 15 (fst (generate_new_project p g)))"
  by (simp add: generate_new_project_def Let_def case_prod_beta)

lemma track_meta_quiet: "list_all meta_quiet (fst (generate_track t b g))"
  using reasynth_fx_meta_quiet [of g] midi_items_quiet [of "midi_items t" g]
    midi_items_quiet [of "midi_items t" "snd (generate_reasynth_fx g)"]
  by (simp add: generate_track_lines meta_quietI lstrip_simps)

lemma header_metadata:
  assumes "tempo p = Finite False 128 0"
  shows "\<exists>m. parse_metadata q (take 23 (fst (generate_new_project p g)))
              = Inr (q\<lparr>sample_rate := sample_rate p, tempo := Finite False 128 0,
                       render_file := m\<rparr>)"
proof -
  let ?L = "fst (generate_new_project p g)"
  let ?q1 = "q\<lparr>sample_rate := sample_rate p\<rparr>"
  let ?q2 = "?q1\<lparr>tempo := Finite False 128 0\<rparr>"
  have 1: "parse_metadata q (take 4 ?L) = Inr q"
    by (rule parse_metadata_quiet) (rule header_parts)
  have 2: "parse_metadata q [?L ! 4] = Inr ?q1"
    by (simp only: header_parts(2) parse_metadata.simps samplerate_line sum.case)
  have "?L ! 5 = nl ''  TEMPO 128.0 4 4''"
    by (simp add: header_parts(3) assms tempo_128_text)
  then have 3: "parse_metadata ?q1 [?L ! 5] = Inr ?q2"
    by (simp only: parse_metadata.simps tempo_128_line sum.case)
  have 4: "parse_metadata ?q2 (take 8 (drop 6 ?L)) = Inr ?q2"
    by (rule parse_metadata_quiet) (rule header_parts)
  from render_file_line [of ?q2 "render_file p"] obtain m where
    "parse_metadata_line ?q2 (nl (''  RENDER_FILE '' @ dq (render_file p)))
       = Inr (?q2\<lparr>render_file := m\<rparr>)" by blast
  then have 5: "parse_metadata ?q2 [?L ! 14] = Inr (?q2\<lparr>render_file := m\<rparr>)"
    by (simp only: header_parts(5) parse_metadata.simps sum.case)
  have 6: "parse_metadata (?q2\<lparr>render_file := m\<rparr>) (take 8 (drop 15 ?L))
             = Inr (?q2\<lparr>render_file := m\<rparr>)"
    by (rule parse_metadata_quiet) (rule header_parts)
  have "parse_metadata q (take 23 ?L) = Inr (?q2\<lparr>render_file := m\<rparr>)"
    by (subst header_split) (simp only: parse_metadata_append 1 2 3 4 5 6 sum.case)
  then show ?thesis by blast
qed

lemma scan_drums_track:
  assumes "name t = ''Drums''" and "midi_items t \<noteq> []" and "\<not> in_track st"
  shows "\<exists>gd g2. foldl parse_track_line st (fst (generate_track t True g)) =
           st\<lparr>scan_tracks :=
                 scan_tracks st @ [\<lparr>name = ''Drums'', index = track_idx st, guid = gd,
                                    midi_items = []\<rparr>],
              in_track := False, current_track := None,
              track_idx := track_idx st + 1, scan_supply := g2\<rparr>"
proof -
  define A where "A = take 10 (fst (generate_reasynth_fx g))"
  define B where "B = drop 11 (fst (generate_reasynth_fx g))"
  define I where "I = fst (generate_midi_items (midi_items t) (snd (generate_reasynth_fx g)))"
  define open_line where "open_line = nl (''  <TRACK '' @ ''{'' @ guid t @ ''}'')"
  define name_line where "name_line = nl (''    NAME '' @ dq ''Drums'')"
  define shut_line where "shut_line = nl ''      >''"
  define inner where "inner =
     [nl ''    PEAKCOL 16576'', nl ''    BEAT -1'', nl ''    AUTOMODE 0'',
      nl ''    VOLPAN 1 0 -1 -1 1'', nl ''    REC 0 0 1 0 0 0 0 0'', nl ''    VU 2'',
      nl ''    NCHAN 2'', nl ''    FX 1'',
      nl (''    TRACKID '' @ ''{'' @ guid t @ ''}''),
      nl ''    PERF 0'', nl ''    MIDIOUT -1'', nl ''    MAINSEND 1 0'']"
  have inner: "list_all inner_quiet inner"
    by (simp add: inner_def inner_quietI lstrip_simps)
  have A: "list_all inner_quiet A"
    unfolding A_def by (rule reasynth_fx_scan)
  have fx: "fst (generate_reasynth_fx g) = A @ [shut_line] @ B"
    unfolding A_def B_def shut_line_def by (rule reasynth_fx_scan(5) [symmetric])
  have "fst (generate_track t True g) =
          [open_line, name_line] @ inner @ fst (generate_reasynth_fx g) @ I @ [nl ''  >'']"
    using assms(1,2)
    by (simp add: generate_track_lines inner_def open_line_def name_line_def I_def)
  moreover define R where "R = B @ I @ [nl ''  >'']"
  ultimately have lines: "fst (generate_track t True g) =
      [open_line, name_line] @ inner @ A @ [shut_line] @ R"
    by (simp only: fx append_assoc)
  define st1 where "st1 = parse_track_line st open_line"
  define X where "X = (case re_braced (''<TRACK {'' @ guid t @ ''}'') of
                         Some m \<Rightarrow> (m, scan_supply st)
                       | None \<Rightarrow> uuid4 (scan_supply st))"
  define gd where "gd = fst X"
  define t1 where "t1 = \<lparr>name = ''Track '' @ str_int (track_idx st + 1), index = track_idx st,
                          guid = gd, midi_items = []\<rparr>"
  have e: "st1 = st\<lparr>in_track := True, current_track := Some t1,
                     track_idx := track_idx st + 1, scan_supply := snd X\<rparr>"
    unfolding st1_def open_line_def X_def gd_def t1_def by (rule track_open_line)
  have st1: "in_track st1" "current_track st1 = Some t1" "scan_tracks st1 = scan_tracks st"
    "track_idx st1 = track_idx st + 1"
    by (simp_all add: e)
  define st2 where "st2 = st1\<lparr>current_track := Some (t1\<lparr>name := ''Drums''\<rparr>)\<rparr>"
  have 2: "parse_track_line st1 name_line = st2"
    unfolding name_line_def st2_def by (rule name_drums_line [OF st1(1,2)])
  have st2: "in_track st2" "current_track st2 = Some (t1\<lparr>name := ''Drums''\<rparr>)"
    using st1 by (simp_all add: st2_def)
  define st3 where "st3 = st2\<lparr>scan_tracks := scan_tracks st2 @ [t1\<lparr>name := ''Drums''\<rparr>],
                               current_track := None, in_track := False\<rparr>"
  have 3: "parse_track_line st2 shut_line = st3"
    unfolding shut_line_def st3_def by (rule close_line [OF st2])
  have q: "\<not> in_track st3" by (simp add: st3_def)
  have "list_all track_quiet B"
    unfolding B_def by (rule reasynth_fx_scan)
  moreover have "list_all track_quiet I"
    unfolding I_def using midi_items_quiet by blast
  moreover have "track_quiet (nl ''  >'')"
    by (simp add: track_quietI lstrip_simps)
  ultimately have rest: "list_all track_quiet R" by (simp add: R_def)
  have "foldl parse_track_line st (fst (generate_track t True g)) = st3"
    unfolding lines
    by (simp only: foldl_append foldl.simps st1_def [symmetric] 2 3 scan_inner [OF inner]
        scan_inner [OF A] scan_quiet [OF q rest])
  moreover have "st3 = st\<lparr>scan_tracks :=
                 scan_tracks st @ [\<lparr>name = ''Drums'', index = track_idx st, guid = gd,
                                    midi_items = []\<rparr>],
              in_track := False, current_track := None,
              track_idx := track_idx st + 1, scan_supply := snd X\<rparr>"
    unfolding st3_def st2_def by (simp add: e t1_def)
  ultimately show ?thesis by blast
qed


lemma save_load_drums:
  assumes "tempo p = Finite False 128 0" and "tracks p = [t]" and "name t = ''Drums''"
    and "midi_items t = [item]"
    and "no_linebreak (render_file p)" and "no_linebreak (guid t)"
    and "no_linebreak (path item)"
  shows "\<exists>q gd g''. load pth (fst (save p g)) g' = Inr (q, g'')
           \<and> tempo q = Finite False 128 0 \<and> sample_rate q = sample_rate p
           \<and> tracks q = [\<lparr>name = ''Drums'', index = 0, guid = gd, midi_items = []\<rparr>]"
proof -
  define L where "L = fst (generate_new_project p g)"
  define H where "H = take 23 L"
  define T where "T = fst (generate_track t True g)"
  have "fst (generate_tracks (tracks p) g) = T"
    by (simp add: assms(2) T_def case_prod_beta)
  with generate_new_project_lines [of p g] have L: "L = H @ T @ [nl ''>'']"
    by (simp add: L_def H_def)
  have items: "midi_items t \<noteq> []" "\<forall>i \<in> set (midi_items t). no_linebreak (path i)"
    using assms(4,7) by simp_all
  have nm: "no_linebreak (name t)"
    by (simp add: assms(3) no_linebreak_def)
  have "list_all proper_line H"
    unfolding H_def L_def using assms(5) by (rule proper_header)
  moreover have "list_all proper_line T"
    unfolding T_def using assms(6) nm items(2) by (rule proper_track)
  moreover have "proper_line (nl ''>'')"
    by (simp add: proper_nl no_linebreak_def)
  ultimately have "list_all proper_line L" by (simp add: L)
  then have read: "readlines (fst (save p g)) = L"
    using readlines_proper [of L] by (simp add: save_def case_prod_beta L_def)
  define q0 where "q0 = (new_project (Some pth))\<lparr>raw_lines := L\<rparr>"
  from header_metadata [OF assms(1), of q0 g] obtain m where
    hm: "parse_metadata q0 H
           = Inr (q0\<lparr>sample_rate := sample_rate p, tempo := Finite False 128 0,
                     render_file := m\<rparr>)"
    by (auto simp: H_def L_def)
  define q1 where "q1 = q0\<lparr>sample_rate := sample_rate p, tempo := Finite False 128 0,
                            render_file := m\<rparr>"
  have "list_all meta_quiet (T @ [nl ''>''])"
    using track_meta_quiet [of t True g] by (simp add: T_def meta_quietI lstrip_simps)
  then have "parse_metadata q1 (T @ [nl ''>'']) = Inr q1"
    by (rule parse_metadata_quiet)
  with hm have meta: "parse_metadata q0 L = Inr q1"
    by (simp only: L parse_metadata_append q1_def [symmetric] sum.case)
  define st0 where "st0 = \<lparr>scan_tracks = [], in_track = False, current_track = None,
                            track_idx = 0, scan_supply = g'\<rparr>"
  have st0: "\<not> in_track st0" by (simp add: st0_def)
  have "list_all track_quiet H"
    unfolding H_def L_def by (rule header_track_quiet)
  with st0 have s1: "foldl parse_track_line st0 H = st0" by (rule scan_quiet)
  from scan_drums_track [OF assms(3) items(1) st0, of g] obtain gd g2 where
    s2: "foldl parse_track_line st0 T =
           st0\<lparr>scan_tracks :=
                  scan_tracks st0 @ [\<lparr>name = ''Drums'', index = track_idx st0, guid = gd,
                                      midi_items = []\<rparr>],
               in_track := False, current_track := None,
               track_idx := track_idx st0 + 1, scan_supply := g2\<rparr>"
    unfolding T_def by blast
  define st3 where "st3 = foldl parse_track_line st0 T"
  have st3: "\<not> in_track st3"
    "scan_tracks st3 = [\<lparr>name = ''Drums'', index = 0, guid = gd, midi_items = []\<rparr>]"
    unfolding st3_def s2 by (simp_all add: st0_def)
  have "track_quiet (nl ''>'')" by (simp add: track_quietI lstrip_simps)
  with st3(1) have s3: "parse_track_line st3 (nl ''>'') = st3"
    by (rule parse_track_line_quiet)
  have scan: "parse_tracks g' L = st3"
    unfolding parse_tracks_def st0_def [symmetric] L
    by (simp only: foldl_append foldl.simps s1 st3_def [symmetric] s3)
  have "load pth (fst (save p g)) g' = Inr (q1\<lparr>tracks := scan_tracks st3\<rparr>, scan_supply st3)"
    unfolding load_def read load_lines_def q0_def [symmetric] meta scan
    by (simp add: Let_def)
  moreover have "tempo (q1\<lparr>tracks := scan_tracks st3\<rparr>) = Finite False 128 0"
    "sample_rate (q1\<lparr>tracks := scan_tracks st3\<rparr>) = sample_rate p"
    "tracks (q1\<lparr>tracks := scan_tracks st3\<rparr>)
       = [\<lparr>name = ''Drums'', index = 0, guid = gd, midi_items = []\<rparr>]"
    by (simp_all add: q1_def st3(2))
  ultimately show ?thesis by blast
qed

lemma drums_project_facts:
  "tempo drums_project = Finite False 128 0"
  "tracks drums_project = [hd (tracks drums_project)]"
  "name (hd (tracks drums_project)) = ''Drums''"
  "midi_items (hd (tracks drums_project)) = [drums_item]"
  "no_linebreak (render_file drums_project)"
  "no_linebreak (guid (hd (tracks drums_project)))"
  "no_linebreak (path drums_item)"
  by (simp_all add: drums_project_def drums_item_def new_project_def no_linebreak_def)

text \<open>
  Claim C1, as stated: a project with tempo 128, one track named Drums and one placed item
  on it, saved and loaded again, has tempo 128.0, one track named Drums and one placed
  item. The loader reads the identifier and the name of each track only; it never
  builds a placed item. For the example project, which holds one item, the load succeeds
  and the track that comes back holds none.
\<close>

theorem save_load_item_counterexample:
  "map midi_items (tracks drums_project) = [[drums_item]]
   \<and> \<not> isl (load ''song.rpp'' (fst (save drums_project counting_supply)) counting_supply)
   \<and> map midi_items
        (tracks (fst (projr (load ''song.rpp'' (fst (save drums_project counting_supply))
                               counting_supply)))) = [[]]"
proof -
  from save_load_drums [OF drums_project_facts, of "''song.rpp''" counting_supply counting_supply]
  obtain q gd g'' where
    "load ''song.rpp'' (fst (save drums_project counting_supply)) counting_supply = Inr (q, g'')"
    "tracks q = [\<lparr>name = ''Drums'', index = 0, guid = gd, midi_items = []\<rparr>]"
    by blast
  then show ?thesis
    by (simp add: drums_project_def new_project_def)
qed

text \<open>
  Claim C1, amended. For every project model with tempo 128 and exactly one track, named
  Drums, that holds one placed item, where the render target, the track identifier and the
  item's path have no line break in them: saving the model and loading the text again
  succeeds and gives a model with tempo 128.0, the same sample rate, and exactly one track,
  named Drums, with index 0 and with no placed item (placed items are written but never
  read back).
\<close>

theorem save_load_tempo_and_track:
  assumes "tempo p = Finite False 128 0" and "tracks p = [t]" and "name t = ''Drums''"
    and "midi_items t = [item]"
    and "no_linebreak (render_file p)" and "no_linebreak (guid t)"
    and "no_linebreak (path item)"
  shows "\<exists>q gd g''. load pth (fst (save p g)) g' = Inr (q, g'')
           \<and> tempo q = Finite False 128 0 \<and> sample_rate q = sample_rate p
           \<and> tracks q = [\<lparr>name = ''Drums'', index = 0, guid = gd, midi_items = []\<rparr>]"
  using assms by (rule save_load_drums)

theorem save_load_tempo_and_track_witness:
  "tempo drums_project = Finite False 128 0
   \<and> tracks drums_project = [hd (tracks drums_project)]
   \<and> name (hd (tracks drums_project)) = ''Drums''
   \<and> midi_items (hd (tracks drums_project)) = [drums_item]
   \<and> no_linebreak (render_file drums_project)
   \<and> no_linebreak (guid (hd (tracks drums_project)))
   \<and> no_linebreak (path drums_item)
   \<and> (\<exists>q gd g''. load ''song.rpp'' (fst (save drums_project counting_supply)) counting_supply
                     = Inr (q, g'')
          \<and> tempo q = Finite False 128 0 \<and> sample_rate q = sample_rate drums_project
          \<and> tracks q = [\<lparr>name = ''Drums'', index = 0, guid = gd, midi_items = []\<rparr>])"
  using save_load_tempo_and_track [OF drums_project_facts, of "''song.rpp''" counting_supply
      counting_supply] drums_project_facts
  by blast

end
